theory Spec2Isabelle
  imports Main "HOL-Library.Word" "HOL-Library.Sublist"
begin

section \<open>main.js: the preference key of a domain\<close>

text \<open>
  A JavaScript string is a sequence of 16-bit code units; \<open>charCodeAt\<close> reads one of them
  as a number, and a regular expression without the \<open>u\<close> flag matches code unit by code
  unit.
\<close>

type_synonym code_unit = "16 word"
type_synonym jsstring = "code_unit list"

text \<open>The character class \<open>[a-zA-Z0-9]\<close>.\<close>

definition isAlnum :: "code_unit \<Rightarrow> bool" where
  "isAlnum c \<longleftrightarrow> (0x61 \<le> c \<and> c \<le> 0x7A) \<or> (0x41 \<le> c \<and> c \<le> 0x5A) \<or> (0x30 \<le> c \<and> c \<le> 0x39)"

definition underscore :: code_unit where
  "underscore = 0x5F"

definition digit :: "nat \<Rightarrow> code_unit" where
  "digit d = of_nat (0x30 + d)"

text \<open>The decimal rendering of a number that string concatenation performs.\<close>

fun decimal :: "nat \<Rightarrow> jsstring" where
  "decimal n = (if n < 10 then [digit n] else decimal (n div 10) @ [digit (n mod 10)])"

declare decimal.simps [simp del]

text \<open>The replacer \<open>function (char) { return "_" + char.charCodeAt(0) + "_"; }\<close>.\<close>

definition replacer :: "code_unit \<Rightarrow> jsstring" where
  "replacer c = [underscore] @ decimal (unat c) @ [underscore]"

text \<open>
  \<open>replace(/[^a-zA-Z0-9]/g, replacer)\<close>: the pattern matches one code unit at a time, so
  the global replacement walks the string once, from the left.
\<close>

fun replace_nonalnum :: "jsstring \<Rightarrow> jsstring" where
  "replace_nonalnum [] = []"
| "replace_nonalnum (c # cs) = (if \<not> isAlnum c then replacer c else [c]) @ replace_nonalnum cs"

text \<open>\<open>domainName && domainName.replace(...)\<close>: the only falsy string is the empty one.\<close>

definition domainPrefKey :: "jsstring \<Rightarrow> jsstring" where
  "domainPrefKey domainName = (if domainName = [] then domainName else replace_nonalnum domainName)"

text \<open>Reading a decimal numeral back, to say what \<open>decimal\<close> writes.\<close>

definition read_decimal :: "jsstring \<Rightarrow> nat" where
  "read_decimal ds = foldl (\<lambda>a d. 10 * a + (unat d - 0x30)) 0 ds"

section \<open>lib/NodeDomain.js: values, patterns and promises\<close>

text \<open>
  The values that travel as command parameters, results, event payloads and rejection
  reasons. A promise is an object too, so a reference to one is a value.
\<close>

datatype val = Undefined | Num int | Str string | Obj "(string \<times> val) list" | PromiseRef nat

subsection \<open>The pattern \<open>new RegExp("^" + this._domainName + ":*")\<close>\<close>

text \<open>
  The constructor builds its pattern from the domain name by string concatenation. The
  model reads by itself the fragment of the pattern language that such a source falls into
  when the name holds no character with a meaning of its own: an anchor, literal
  characters, and a literal followed by the quantifier \<open>*\<close>.
\<close>

datatype rx_atom = Lit char | Star char

definition is_meta :: "char \<Rightarrow> bool" where
  "is_meta c \<longleftrightarrow> c \<in> {CHR ''^'', CHR ''$'', CHR ''.'', CHR ''*'', CHR ''+'', CHR ''?'', CHR ''('', CHR '')'',
      CHR ''['', CHR '']'', CHR ''{'', CHR ''}'', CHR ''|'', CHR 0x5C}"

fun rx_atoms :: "string \<Rightarrow> rx_atom list option" where
  "rx_atoms [] = Some []"
| "rx_atoms [c] = (if is_meta c then None else Some [Lit c])"
| "rx_atoms (c # d # cs) =
     (if is_meta c then None
      else if d = CHR ''*'' then map_option ((#) (Star c)) (rx_atoms cs)
      else map_option ((#) (Lit c)) (rx_atoms (d # cs)))"

definition fragment :: "string \<Rightarrow> rx_atom list option" where
  "fragment src = (case src of [] \<Rightarrow> None | c # rest \<Rightarrow> if c = CHR ''^'' then rx_atoms rest else None)"

text \<open>
  Whether an anchored pattern matches at the start of a key. The pattern has no \<open>$\<close>, so
  whatever follows the match is free; a starred literal matches zero or more copies.
\<close>

fun rx_test :: "rx_atom list \<Rightarrow> string \<Rightarrow> bool" where
  "rx_test [] s = True"
| "rx_test (Lit c # as) [] = False"
| "rx_test (Lit c # as) (d # ds) = (c = d \<and> rx_test as ds)"
| "rx_test (Star c # as) [] = rx_test as []"
| "rx_test (Star c # as) (d # ds) = (rx_test as (d # ds) \<or> (c = d \<and> rx_test (Star c # as) ds))"

text \<open>
  A source outside the fragment is left to the language: \<open>engine\<close> stands for what
  \<open>new RegExp\<close> does with such a source, \<open>None\<close> where it throws a SyntaxError and
  otherwise the test of the pattern it builds. A pattern is then either one of the
  fragment, kept by its atoms, or one that the language compiled.
\<close>

datatype pattern = Atoms "rx_atom list" | Compiled "string \<Rightarrow> bool"

definition RegExp :: "(string \<Rightarrow> (string \<Rightarrow> bool) option) \<Rightarrow> string \<Rightarrow> pattern option" where
  "RegExp engine src =
     (case fragment src of
        Some as \<Rightarrow> Some (Atoms as)
      | None \<Rightarrow> map_option Compiled (engine src))"

fun pattern_test :: "pattern \<Rightarrow> string \<Rightarrow> bool" where
  "pattern_test (Atoms as) key = rx_test as key"
| "pattern_test (Compiled t) key = t key"

subsection \<open>Promises\<close>

text \<open>
  Promises are objects of the bluebird library; the model follows the Promises/A+ contract
  they implement. A promise is a number into a store of states; \<open>then\<close> registers a
  reaction on its promise, a settled promise turns its reactions into jobs, and jobs run
  one at a time, never inside the call that queued them.
\<close>

type_synonym pid = nat

datatype pstate = Pending | Fulfilled val | Rejected val

text \<open>The closures that the source hands to \<open>then\<close> and \<open>catch\<close>, each with what it captures.\<close>

datatype callback =
    Load
  | LoadSuccess
  | LoadFailure
  | ExecConnected string "val list"

record reaction =
  source :: pid
  onFulfilled :: "callback option"
  onRejected :: "callback option"
  derived :: pid

text \<open>What running a callback comes to: it throws, returns a plain value, or returns a promise.\<close>

datatype completion = Threw val | Returned val | ReturnedPromise pid

subsection \<open>The connection and the domain object\<close>

text \<open>
  What a call \<open>fn.apply(domain, params)\<close> comes to: the function returns a promise that it
  has made, in some state, or returns some other value (a promise that exists already
  among them), or throws.
\<close>

datatype cmd_result = Returns pstate | ReturnsValue val | Throws val

type_synonym command = "val list \<Rightarrow> cmd_result"

text \<open>
  What a property read \<open>domain[name]\<close> can give, as far as \<open>exec\<close> tells values apart: a
  falsy value, \<open>undefined\<close> among them; a value \<open>fn\<close> for which \<open>fn.apply(domain, params)\<close> is
  a call; or a truthy value whose \<open>apply\<close> cannot be called, so that the call throws a
  TypeError.
\<close>

datatype property = Falsy | Applicable command | Inapplicable

text \<open>
  An object as \<open>connection.domains[name]\<close> gives it: its own properties, which for a
  domain are its table of commands, and what it reads through its prototype chain for the
  names that are not its own.
\<close>

record jsobject =
  own :: "string \<rightharpoonup> command"
  inherited :: "string \<rightharpoonup> property"

text \<open>
  The listeners on the connection: the relay installed by \<open>refreshInterface\<close> (it captures
  the bare event name), the handler of \<open>close\<close> installed by the constructor (it captures
  the pattern), and listeners of other clients of the connection.
\<close>

datatype listener = Relay string | CloseHandler pattern | Foreign nat

record world =
  domainName :: string
  domainPath :: string
  domainLoaded :: bool
  connectionPromise :: "pid option"
  emitted :: "(string \<times> val list) list"
  connected :: bool
  domains :: "string \<rightharpoonup> jsobject"
  domainEvents :: "string \<rightharpoonup> string list"
  listeners :: "string \<Rightarrow> listener list"
  loadRequests :: "(string \<times> bool \<times> pid) list"
  promises :: "pid \<Rightarrow> pstate"
  nextPid :: pid
  external :: "pid set"
  reactions :: "reaction list"
  jobs :: "(reaction \<times> pstate) list"
  console :: "(string \<times> val) list"

text \<open>
  The fields \<open>domainName\<close>, \<open>domainPath\<close>, \<open>domainLoaded\<close> and \<open>connectionPromise\<close> are
  the source's \<open>_domainName\<close>, \<open>_domainPath\<close>, \<open>_domainLoaded\<close> and \<open>_connectionPromise\<close>;
  \<open>emitted\<close> lists the local events that \<open>emitEvent\<close> has fired, oldest first, each with
  its payload. The next fields are the connection: its \<open>connected()\<close> answer, its tables
  \<open>domains\<close> (by the truthy values that it reads under a name) and \<open>domainEvents\<close> (by
  the key list that \<open>Object.keys\<close> reads),
  its listeners by event key, and the \<open>loadDomains\<close> calls it has received. Then the
  promise store, the promises that the connection alone settles (\<open>external\<close>), the
  registered reactions and the job queue, and what was written to the console.
\<close>

definition newPromise :: "pstate \<Rightarrow> world \<Rightarrow> pid \<times> world" where
  "newPromise st w =
     (nextPid w, w\<lparr>promises := (promises w)(nextPid w := st), nextPid := Suc (nextPid w)\<rparr>)"

text \<open>\<open>Promise.resolve()\<close> and \<open>Promise.reject()\<close>, called without an argument.\<close>

definition Promise_resolve :: "world \<Rightarrow> pid \<times> world" where
  "Promise_resolve w = newPromise (Fulfilled Undefined) w"

definition Promise_reject :: "world \<Rightarrow> pid \<times> world" where
  "Promise_reject w = newPromise (Rejected Undefined) w"

text \<open>A promise that the connection hands out and settles later by itself.\<close>

definition newExternal :: "pstate \<Rightarrow> world \<Rightarrow> pid \<times> world" where
  "newExternal st w =
     (case newPromise st w of (p, w') \<Rightarrow> (p, w'\<lparr>external := insert p (external w')\<rparr>))"

text \<open>\<open>p.then(f, r)\<close>; \<open>p.catch(r)\<close> is \<open>p.then(undefined, r)\<close>.\<close>

definition thenP :: "pid \<Rightarrow> callback option \<Rightarrow> callback option \<Rightarrow> world \<Rightarrow> pid \<times> world" where
  "thenP p f r w =
     (case newPromise Pending w of (q, w1) \<Rightarrow>
        (let rc = \<lparr>source = p, onFulfilled = f, onRejected = r, derived = q\<rparr>
         in (q, if promises w p = Pending
                then w1\<lparr>reactions := reactions w1 @ [rc]\<rparr>
                else w1\<lparr>jobs := jobs w1 @ [(rc, promises w p)]\<rparr>)))"

text \<open>Settling a pending promise queues its reactions, in the order they were registered.\<close>

definition settle :: "pid \<Rightarrow> pstate \<Rightarrow> world \<Rightarrow> world" where
  "settle p st w =
     (if promises w p = Pending \<and> st \<noteq> Pending
      then w\<lparr>promises := (promises w)(p := st),
             reactions := filter (\<lambda>rc. source rc \<noteq> p) (reactions w),
             jobs := jobs w @ map (\<lambda>rc. (rc, st)) (filter (\<lambda>rc. source rc = p) (reactions w))\<rparr>
      else w)"

text \<open>A callback returned the promise \<open>r\<close>: the derived promise \<open>q\<close> takes the state of \<open>r\<close>.\<close>

definition follow :: "pid \<Rightarrow> pid \<Rightarrow> world \<Rightarrow> world" where
  "follow r q w =
     (let rc = \<lparr>source = r, onFulfilled = None, onRejected = None, derived = q\<rparr>
      in if promises w r = Pending
         then w\<lparr>reactions := reactions w @ [rc]\<rparr>
         else w\<lparr>jobs := jobs w @ [(rc, promises w r)]\<rparr>)"

definition resolveWith :: "pid \<Rightarrow> completion \<Rightarrow> world \<Rightarrow> world" where
  "resolveWith q c w =
     (case c of
        Threw e \<Rightarrow> settle q (Rejected e) w
      | Returned v \<Rightarrow> settle q (Fulfilled v) w
      | ReturnedPromise r \<Rightarrow> follow r q w)"

section \<open>lib/NodeDomain.js: the connection's contract\<close>

text \<open>
  The file lib/NodeConnection.js and the event emitter that it extends are not among the
  sources; what the proxy calls on its connection is modelled from the contract that the
  spec gives for the connection.
\<close>

text \<open>
  Modelled from the spec: \<open>connect(autoReconnect)\<close> of the missing NodeConnection. It
  returns a future that the connection settles by itself.
\<close>

definition connect :: "bool \<Rightarrow> world \<Rightarrow> pid \<times> world" where
  "connect autoReconnect w = newExternal Pending w"

text \<open>
  Modelled from the spec: \<open>loadDomains(path, autoReload)\<close> of the missing NodeConnection.
  It returns a future that the connection settles by itself; the call is recorded.
\<close>

definition loadDomains :: "string \<Rightarrow> bool \<Rightarrow> world \<Rightarrow> pid \<times> world" where
  "loadDomains path autoReload w =
     (case newExternal Pending w of (p, w') \<Rightarrow>
        (p, w'\<lparr>loadRequests := loadRequests w' @ [(path, autoReload, p)]\<rparr>))"

text \<open>
  Modelled from the spec: \<open>getListeners(eventKey)\<close> of the missing event emitter, the
  sequence of listeners under a key.
\<close>

definition getListeners :: "string \<Rightarrow> world \<Rightarrow> listener list" where
  "getListeners key w = listeners w key"

text \<open>
  Modelled from the spec: \<open>on(eventKey, handler)\<close> of the missing event emitter. The
  handlers that the proxy passes are new closures, so each call adds a listener.
\<close>

definition on :: "string \<Rightarrow> listener \<Rightarrow> world \<Rightarrow> world" where
  "on key l w = w\<lparr>listeners := (listeners w)(key := listeners w key @ [l])\<rparr>"

text \<open>
  Modelled from the spec: \<open>off\<close> of the missing event emitter, the bulk unsubscription
  that the close handler calls with its pattern: every key that the pattern matches loses
  all its listeners.
\<close>

definition off :: "pattern \<Rightarrow> world \<Rightarrow> world" where
  "off rx w = w\<lparr>listeners := (\<lambda>key. if pattern_test rx key then [] else listeners w key)\<rparr>"

section \<open>lib/NodeDomain.js: the domain proxy\<close>

text \<open>\<open>this.emitEvent(domainEvent, params)\<close> of the proxy's own emitter.\<close>

definition emitEvent :: "string \<Rightarrow> val list \<Rightarrow> world \<Rightarrow> world" where
  "emitEvent evt args w = w\<lparr>emitted := emitted w @ [(evt, args)]\<rparr>"

text \<open>The body of the \<open>forEach\<close> in \<open>refreshInterface\<close>, for one event name.\<close>

definition installRelay :: "string \<Rightarrow> world \<Rightarrow> world" where
  "installRelay domainEvent w =
     (let connectionEvent = domainName w @ '':'' @ domainEvent;
          ls = getListeners connectionEvent w
      in if length ls = 0 then on connectionEvent (Relay domainEvent) w else w)"

text \<open>
  \<open>refreshInterface\<close>: \<open>Object.keys\<close> of an entry that \<open>domainEvents\<close> does not have throws
  a TypeError before any listener is touched.
\<close>

definition refreshInterface :: "world \<Rightarrow> val + world" where
  "refreshInterface w =
     (case domainEvents w (domainName w) of
        None \<Rightarrow> Inl (Str ''TypeError'')
      | Some eventNames \<Rightarrow> Inr (fold installRelay eventNames w))"

definition ready :: "world \<Rightarrow> bool" where
  "ready w \<longleftrightarrow> domainLoaded w \<and> connected w"

text \<open>\<open>promise\<close>; the left summand of a result is an exception thrown to the caller.\<close>

definition promise :: "world \<Rightarrow> (val + pid) \<times> world" where
  "promise w =
     (case connectionPromise w of
        Some p \<Rightarrow> (Inr p, w)
      | None \<Rightarrow>
          (if ready w
           then (case Promise_resolve w of (p, w') \<Rightarrow> (Inr p, w'))
           else (case Promise_reject w of (p, w') \<Rightarrow> (Inr p, w'))))"

text \<open>
  The property read \<open>domain[name]\<close>: the object's own property if it has one of that
  name, else what its prototype chain gives, else \<open>undefined\<close>.
\<close>

definition getProperty :: "jsobject \<Rightarrow> string \<Rightarrow> property" where
  "getProperty obj name =
     (case own obj name of
        Some f \<Rightarrow> Applicable f
      | None \<Rightarrow> (case inherited obj name of Some p \<Rightarrow> p | None \<Rightarrow> Falsy))"

text \<open>
  The closure \<open>execConnected\<close> of \<open>exec\<close>: it reads the command when it runs.
  \<open>domain && domain[name]\<close> is falsy when the connection has nothing under the domain name
  or the read gives a falsy value; any truthy \<open>fn\<close> is applied, whatever it is. The result
  is what the caller gets: on the right the value returned, a promise by its reference, on
  the left an exception.
\<close>

definition execConnected :: "string \<Rightarrow> val list \<Rightarrow> world \<Rightarrow> (val + val) \<times> world" where
  "execConnected name params w =
     (let domain = domains w (domainName w);
          fn = (case domain of None \<Rightarrow> Falsy | Some obj \<Rightarrow> getProperty obj name)
      in case fn of
           Applicable f \<Rightarrow>
             (case f params of
                Returns st \<Rightarrow> (case newExternal st w of (r, w') \<Rightarrow> (Inr (PromiseRef r), w'))
              | ReturnsValue v \<Rightarrow> (Inr v, w)
              | Throws e \<Rightarrow> (Inl e, w))
         | Inapplicable \<Rightarrow> (Inl (Str ''TypeError''), w)
         | Falsy \<Rightarrow> (case Promise_reject w of (r, w') \<Rightarrow> (Inr (PromiseRef r), w')))"

definition exec :: "string \<Rightarrow> val list \<Rightarrow> world \<Rightarrow> (val + val) \<times> world" where
  "exec name params w =
     (if ready w then execConnected name params w
      else (case connectionPromise w of
              Some p \<Rightarrow>
                (case thenP p (Some (ExecConnected name params)) None w of
                   (q, w') \<Rightarrow> (Inr (PromiseRef q), w'))
            | None \<Rightarrow> (case Promise_reject w of (r, w') \<Rightarrow> (Inr (PromiseRef r), w'))))"

text \<open>
  \<open>_load\<close> and its two handlers. \<open>_load\<close> returns the promise of
  \<open>loadDomains(...).then(success).catch(failure)\<close>.
\<close>

definition load :: "world \<Rightarrow> pid \<times> world" where
  "load w =
     (case loadDomains (domainPath w) True w of (d, w1) \<Rightarrow>
        (case thenP d (Some LoadSuccess) None w1 of (t, w2) \<Rightarrow>
           thenP t None (Some LoadFailure) w2))"

definition loadSuccess :: "world \<Rightarrow> completion \<times> world" where
  "loadSuccess w =
     (let w1 = w\<lparr>domainLoaded := True, connectionPromise := None\<rparr>
      in case refreshInterface w1 of
           Inl e \<Rightarrow> (Threw e, w1)
         | Inr w2 \<Rightarrow> (Returned Undefined, w2))"

definition loadFailure :: "val \<Rightarrow> world \<Rightarrow> completion \<times> world" where
  "loadFailure err w =
     (Returned Undefined,
      w\<lparr>console := console w @
          [(''[NodeDomain] Error loading domain '' @ [CHR 0x22] @ domainName w @ [CHR 0x22] @ '': '', err)]\<rparr>)"

fun runCallback :: "callback \<Rightarrow> val \<Rightarrow> world \<Rightarrow> completion \<times> world" where
  "runCallback Load v w = (case load w of (l, w') \<Rightarrow> (ReturnedPromise l, w'))"
| "runCallback LoadSuccess v w = loadSuccess w"
| "runCallback LoadFailure err w = loadFailure err w"
| "runCallback (ExecConnected name params) v w =
     (case execConnected name params w of
        (Inl e, w') \<Rightarrow> (Threw e, w')
      | (Inr (PromiseRef r), w') \<Rightarrow> (ReturnedPromise r, w')
      | (Inr x, w') \<Rightarrow> (Returned x, w'))"

text \<open>
  One job: the reaction's handler for the way its promise settled runs, and what it comes
  to decides the derived promise; without a handler the settlement passes through.
\<close>

definition runJob :: "reaction \<times> pstate \<Rightarrow> world \<Rightarrow> world" where
  "runJob j w =
     (case j of (rc, st) \<Rightarrow>
        (case st of
           Pending \<Rightarrow> w
         | Fulfilled v \<Rightarrow>
             (case onFulfilled rc of
                None \<Rightarrow> settle (derived rc) st w
              | Some cb \<Rightarrow> (case runCallback cb v w of (c, w') \<Rightarrow> resolveWith (derived rc) c w'))
         | Rejected e \<Rightarrow>
             (case onRejected rc of
                None \<Rightarrow> settle (derived rc) st w
              | Some cb \<Rightarrow> (case runCallback cb e w of (c, w') \<Rightarrow> resolveWith (derived rc) c w'))))"

definition runNextJob :: "world \<Rightarrow> world" where
  "runNextJob w = (case jobs w of [] \<Rightarrow> w | j # js \<Rightarrow> runJob j (w\<lparr>jobs := js\<rparr>))"

text \<open>Running at most \<open>n\<close> queued jobs.\<close>

fun drain :: "nat \<Rightarrow> world \<Rightarrow> world" where
  "drain 0 w = w"
| "drain (Suc n) w = drain n (runNextJob w)"

text \<open>
  The handler of \<open>close\<close>, with the pattern it captured and the value it is called with.
  It unsubscribes and marks the domain as not loaded first; then \<open>promise.then\<close> is a call
  only if the value is a promise, and throws a TypeError otherwise. The result is the
  exception, if any, and the state.
\<close>

definition closeHandler :: "pattern \<Rightarrow> val \<Rightarrow> world \<Rightarrow> val option \<times> world" where
  "closeHandler domainPrefix payload w =
     (let w1 = off domainPrefix w;
          w2 = w1\<lparr>domainLoaded := False\<rparr>
      in case payload of
           PromiseRef p \<Rightarrow>
             (case thenP p (Some Load) None w2 of (q, w3) \<Rightarrow> (None, w3\<lparr>connectionPromise := Some q\<rparr>))
         | _ \<Rightarrow> (Some (Str ''TypeError''), w2))"

text \<open>
  What a listener does when it is called with the arguments of an event. A relay re-emits
  them under its bare name; the handler of \<open>close\<close> takes the first argument, \<open>undefined\<close>
  if there is none; what the listeners of other clients do is not part of this state.
\<close>

fun invokeListener :: "val list \<Rightarrow> listener \<Rightarrow> world \<Rightarrow> val option \<times> world" where
  "invokeListener args (Relay domainEvent) w = (None, emitEvent domainEvent args w)"
| "invokeListener args (CloseHandler domainPrefix) w =
     closeHandler domainPrefix (case args of [] \<Rightarrow> Undefined | a # rest \<Rightarrow> a) w"
| "invokeListener args (Foreign n) w = (None, w)"

text \<open>
  Modelled from the spec: the missing connection fires an event. The listeners under the
  key are called in order, each once, with the arguments of the event; an exception from a
  listener ends the dispatch and goes to whoever fired the event.
\<close>

fun dispatch :: "val list \<Rightarrow> listener list \<Rightarrow> world \<Rightarrow> val option \<times> world" where
  "dispatch args [] w = (None, w)"
| "dispatch args (l # ls) w =
     (case invokeListener args l w of
        (Some e, w') \<Rightarrow> (Some e, w')
      | (None, w') \<Rightarrow> dispatch args ls w')"

definition emit :: "string \<Rightarrow> val list \<Rightarrow> world \<Rightarrow> val option \<times> world" where
  "emit key args w = dispatch args (getListeners key w) w"

text \<open>
  Modelled from the spec: \<open>new NodeConnection()\<close>, a connection that is not connected and
  has no domains, events or listeners yet; the fields of the proxy are as the constructor
  sets them before it calls \<open>connect\<close>.
\<close>

definition newWorld :: "string \<Rightarrow> string \<Rightarrow> world" where
  "newWorld name path =
     \<lparr>domainName = name, domainPath = path, domainLoaded = False, connectionPromise = None,
      emitted = [], connected = False, domains = Map.empty, domainEvents = Map.empty,
      listeners = (\<lambda>key. []), loadRequests = [], promises = (\<lambda>p. Pending), nextPid = 0,
      external = {}, reactions = [], jobs = [], console = []\<rparr>"

text \<open>
  The constructor: it asks for the connection, chains \<open>_load\<close>, builds the pattern and
  subscribes its handler to \<open>close\<close>. Where \<open>new RegExp\<close> throws its SyntaxError the
  constructor throws it too and there is no proxy: \<open>None\<close>.
\<close>

definition NodeDomain :: "(string \<Rightarrow> (string \<Rightarrow> bool) option) \<Rightarrow> string \<Rightarrow> string \<Rightarrow> world option" where
  "NodeDomain engine name path =
     (case connect True (newWorld name path) of (c, w1) \<Rightarrow>
        (case thenP c (Some Load) None w1 of (q, w2) \<Rightarrow>
           (case RegExp engine (''^'' @ name @ '':*'') of
              None \<Rightarrow> None
            | Some domainPrefix \<Rightarrow>
                Some (on ''close'' (CloseHandler domainPrefix) (w2\<lparr>connectionPromise := Some q\<rparr>)))))"


section \<open>lib/NodeDomain.js: what can happen next\<close>

text \<open>
  One step of the single-threaded run: the next queued job runs; the connection settles
  one of its own promises, changes its state and tables, or fires an event; a client calls
  \<open>exec\<close>, \<open>promise\<close> or \<open>refreshInterface\<close>, or subscribes to the connection.
\<close>

inductive step :: "world \<Rightarrow> world \<Rightarrow> bool" where
  job: "jobs w = j # js \<Longrightarrow> step w (runJob j (w\<lparr>jobs := js\<rparr>))"
| settled: "p \<in> external w \<Longrightarrow> step w (settle p st w)"
| transport: "step w (w\<lparr>connected := c, domains := d, domainEvents := e\<rparr>)"
| closed: "newExternal Pending w = (p, w') \<Longrightarrow> step w (snd (emit ''close'' [PromiseRef p] w'))"
| fired: "step w (snd (emit key args w))"
| exec_called: "step w (snd (exec name params w))"
| promise_called: "step w (snd (promise w))"
| refreshed: "refreshInterface w = Inr w' \<Longrightarrow> step w w'"
| subscribed: "step w (on key (Foreign n) w)"

section \<open>lib/NodeDomain.js: a promise that waits for another\<close>

text \<open>
  In a well-formed state every promise that a reaction or a job will settle, and every
  promise of the connection, has been created.
\<close>

definition wellFormed :: "world \<Rightarrow> bool" where
  "wellFormed w \<longleftrightarrow>
     (\<forall>rc \<in> set (reactions w). derived rc < nextPid w)
     \<and> (\<forall>j \<in> set (jobs w). derived (fst j) < nextPid w)
     \<and> (\<forall>x \<in> external w. x < nextPid w)"

text \<open>
  The reaction \<open>rc\<close> is waiting: its source and the promise derived from it are pending,
  the reaction is registered, and no other reaction and no queued job is in a position to
  settle the derived promise.
\<close>

definition awaiting :: "reaction \<Rightarrow> world \<Rightarrow> bool" where
  "awaiting rc w \<longleftrightarrow>
     wellFormed w \<and> source rc < nextPid w \<and> derived rc < nextPid w \<and> source rc \<noteq> derived rc
     \<and> derived rc \<notin> external w
     \<and> promises w (source rc) = Pending \<and> promises w (derived rc) = Pending
     \<and> rc \<in> set (reactions w)
     \<and> (\<forall>r \<in> set (reactions w). derived r = derived rc \<longrightarrow> r = rc)
     \<and> (\<forall>j \<in> set (jobs w). derived (fst j) \<noteq> derived rc)"

text \<open>
  After a step from a state in which \<open>rc\<close> was waiting: either it still waits, or its source
  has just been settled, its job is queued with that settlement, and the derived promise is
  still pending.
\<close>

definition kept :: "reaction \<Rightarrow> world \<Rightarrow> bool" where
  "kept rc w \<longleftrightarrow>
     (if promises w (source rc) = Pending then awaiting rc w
      else source rc < nextPid w \<and> (rc, promises w (source rc)) \<in> set (jobs w)
           \<and> promises w (derived rc) = Pending)"

text \<open>The promise \<open>p\<close> exists and has been settled as \<open>st\<close>.\<close>

definition frozen :: "pid \<Rightarrow> pstate \<Rightarrow> world \<Rightarrow> bool" where
  "frozen p st w \<longleftrightarrow> p < nextPid w \<and> promises w p = st \<and> st \<noteq> Pending"


text \<open>
  A sound state is well-formed, and the promise that \<open>_connectionPromise\<close> holds, if any,
  has been created.
\<close>

definition sound :: "world \<Rightarrow> bool" where
  "sound w \<longleftrightarrow> wellFormed w \<and> (\<forall>p. connectionPromise w = Some p \<longrightarrow> p < nextPid w)"

section \<open>Runs of the proxy used below\<close>

text \<open>
  The names of the domains below keep their patterns inside the fragment, so nothing is
  asked of the language's own \<open>RegExp\<close>.
\<close>

definition unused_engine :: "string \<Rightarrow> (string \<Rightarrow> bool) option" where
  "unused_engine src = None"

text \<open>
  A proxy for the domain \<open>dom\<close>, right after construction: promise 0 is the connection's
  \<open>connect\<close> promise, promise 1 is \<open>_connectionPromise\<close>.
\<close>

definition constructed :: world where
  "constructed = the (NodeDomain unused_engine ''dom'' ''/path/to/Dom.js'')"

text \<open>
  The connection opens and the job of \<open>_load\<close> runs: promise 2 is the one of
  \<open>loadDomains\<close>, promises 3 and 4 those of \<open>then\<close> and \<open>catch\<close> in \<open>_load\<close>.
\<close>

definition loading :: world where
  "loading = drain 1 (settle 0 (Fulfilled Undefined) (constructed\<lparr>connected := True\<rparr>))"

text \<open>
  The remote side has the domain: a command \<open>ping\<close> that answers \<open>pong\<close>, a command
  \<open>crash\<close> that throws, and an event \<open>changed\<close>.
\<close>

definition remote_commands :: "string \<rightharpoonup> command" where
  "remote_commands =
     [''ping'' \<mapsto> (\<lambda>params. Returns (Fulfilled (Str ''pong''))),
      ''crash'' \<mapsto> (\<lambda>params. Throws (Str ''boom''))]"

text \<open>
  The domain object is a plain object, so the names that are not in its table are read
  from \<open>Object.prototype\<close>. Of its members, the ones that the runs below read: \<open>toString\<close>,
  which answers \<open>[object Object]\<close> for such an object; \<open>toLocaleString\<close>, which calls the
  object's \<open>toString\<close> without arguments; and \<open>__proto__\<close>, which is \<open>Object.prototype\<close>
  itself, an object and not a function.
\<close>

definition inherited_members :: "(string \<rightharpoonup> command) \<Rightarrow> (string \<rightharpoonup> property)" where
  "inherited_members table =
     [''toString'' \<mapsto> Applicable (\<lambda>params. ReturnsValue (Str ''[object Object]'')),
      ''toLocaleString'' \<mapsto> Applicable (\<lambda>params.
         case table ''toString'' of
           None \<Rightarrow> ReturnsValue (Str ''[object Object]'')
         | Some f \<Rightarrow> f []),
      ''__proto__'' \<mapsto> Inapplicable]"

definition plainObject :: "(string \<rightharpoonup> command) \<Rightarrow> jsobject" where
  "plainObject table = \<lparr>own = table, inherited = inherited_members table\<rparr>"

definition announce :: "world \<Rightarrow> world" where
  "announce w = w\<lparr>domains := [''dom'' \<mapsto> plainObject remote_commands],
     domainEvents := [''dom'' \<mapsto> [''changed'']]\<rparr>"


text \<open>The load succeeds and the queue runs dry.\<close>

definition loaded :: world where
  "loaded = drain 3 (settle 2 (Fulfilled Undefined) (announce loading))"

text \<open>The load fails instead, with the error \<open>boom\<close>, and the queue runs dry.\<close>

definition load_failed :: world where
  "load_failed = drain 3 (settle 2 (Rejected (Str ''boom'')) loading)"

text \<open>
  Two calls of \<open>exec\<close> made while the load is under way, one with the command \<open>crash\<close> and
  one with the name \<open>__proto__\<close>; \<open>exec\<close> returns promise 5 for each. Then the load
  succeeds and the queue runs dry.
\<close>

definition crash_deferred :: world where
  "crash_deferred =
     drain 4 (settle 2 (Fulfilled Undefined) (snd (exec ''crash'' [Num 7] (announce loading))))"

definition proto_deferred :: world where
  "proto_deferred =
     drain 4 (settle 2 (Fulfilled Undefined) (snd (exec ''__proto__'' [] (announce loading))))"

text \<open>
  Another client of the connection listens to an event of the domain \<open>domino\<close>; then the
  connection closes, handing out promise 5 for the reconnection.
\<close>

definition crowded :: world where
  "crowded = on ''domino:moved'' (Foreign 0) loaded"

definition reconnecting :: world where
  "reconnecting = snd (emit ''close'' [PromiseRef 5] (snd (newExternal Pending crowded)))"

text \<open>
  A proxy for a domain named \<open>clo\<close>, right after construction, and the first \<open>close\<close> of
  its connection, with promise 2 for the reconnection.
\<close>

definition constructed_clo :: world where
  "constructed_clo = the (NodeDomain unused_engine ''clo'' ''/path/to/Clo.js'')"

definition reconnecting_clo :: world where
  "reconnecting_clo = snd (emit ''close'' [PromiseRef 2] (snd (newExternal Pending constructed_clo)))"

text \<open>
  A call of \<open>exec\<close> right after construction, then the same run as above: the connection
  opens, \<open>_load\<close> runs, the remote side announces the domain, and the load succeeds. The
  promise that \<open>exec\<close> returned is promise 2; the promises of \<open>_load\<close> are 3, 4 and 5.
\<close>

definition pinged :: world where
  "pinged = snd (exec ''ping'' [Num 1, Num 2] constructed)"

definition pinged_open :: world where
  "pinged_open = settle 0 (Fulfilled Undefined)
     (pinged\<lparr>connected := True, domains := Map.empty, domainEvents := Map.empty\<rparr>)"

definition pinged_loading :: world where
  "pinged_loading = runNextJob pinged_open"

definition pinged_announced :: world where
  "pinged_announced = pinged_loading\<lparr>connected := True,
     domains := [''dom'' \<mapsto> plainObject remote_commands],
     domainEvents := [''dom'' \<mapsto> [''changed'']]\<rparr>"

definition pinged_loaded :: world where
  "pinged_loaded = runNextJob (settle 3 (Fulfilled Undefined) pinged_announced)"

text \<open>Two more jobs pass the settlement on, up to the promise that \<open>_connectionPromise\<close> held.\<close>

definition pinged_passing :: world where
  "pinged_passing = runNextJob pinged_loaded"

definition pinged_ready :: world where
  "pinged_ready = runNextJob pinged_passing"

text \<open>The deferred dispatch runs, and then the job that hands its result on.\<close>

definition pinged_dispatched :: world where
  "pinged_dispatched = runNextJob pinged_ready"

definition pinged_done :: world where
  "pinged_done = runNextJob pinged_dispatched"

section \<open>Evaluating the runs\<close>

lemmas run_defs = NodeDomain_def newWorld_def connect_def newExternal_def newPromise_def thenP_def
  RegExp_def fragment_def unused_engine_def is_meta_def on_def off_def settle_def follow_def resolveWith_def runNextJob_def runJob_def
  load_def loadDomains_def loadSuccess_def loadFailure_def refreshInterface_def installRelay_def
  getListeners_def execConnected_def getProperty_def Promise_reject_def Promise_resolve_def

lemma constructed_eq:
  "constructed = \<lparr>domainName = ''dom'', domainPath = ''/path/to/Dom.js'', domainLoaded = False,
      connectionPromise = Some 1, emitted = [], connected = False, domains = Map.empty,
      domainEvents = Map.empty,
      listeners = (\<lambda>key. [])(''close'' := [CloseHandler (Atoms [Lit CHR ''d'', Lit CHR ''o'', Lit CHR ''m'', Star CHR '':''])]),
      loadRequests = [], promises = (\<lambda>p. Pending)(0 := Pending, 1 := Pending), nextPid = 2,
      external = {0},
      reactions = [\<lparr>source = 0, onFulfilled = Some Load, onRejected = None, derived = 1\<rparr>],
      jobs = [], console = []\<rparr>"
  by (simp add: constructed_def run_defs)

lemma loading_eq:
  "loading = \<lparr>domainName = ''dom'', domainPath = ''/path/to/Dom.js'', domainLoaded = False,
      connectionPromise = Some 1, emitted = [], connected = True, domains = Map.empty,
      domainEvents = Map.empty,
      listeners = (\<lambda>key. [])(''close'' := [CloseHandler (Atoms [Lit CHR ''d'', Lit CHR ''o'', Lit CHR ''m'', Star CHR '':''])]),
      loadRequests = [(''/path/to/Dom.js'', True, 2)],
      promises = (\<lambda>p. Pending)(1 := Pending, 0 := Fulfilled Undefined, 2 := Pending, 3 := Pending, 4 := Pending), nextPid = 5,
      external = {2, 0},
      reactions = [\<lparr>source = 2, onFulfilled = Some LoadSuccess, onRejected = None, derived = 3\<rparr>,
                   \<lparr>source = 3, onFulfilled = None, onRejected = Some LoadFailure, derived = 4\<rparr>,
                   \<lparr>source = 4, onFulfilled = None, onRejected = None, derived = 1\<rparr>],
      jobs = [], console = []\<rparr>"
  by (simp add: loading_def constructed_eq run_defs)

lemma loaded_fields:
  "domainName loaded = ''dom''" "domainLoaded loaded" "connected loaded" "connectionPromise loaded = None"
  "domains loaded = [''dom'' \<mapsto> plainObject remote_commands]" "domainEvents loaded = [''dom'' \<mapsto> [''changed'']]"
  "listeners loaded ''dom:changed'' = [Relay ''changed'']"
  "listeners loaded ''close'' = [CloseHandler (Atoms [Lit CHR ''d'', Lit CHR ''o'', Lit CHR ''m'', Star CHR '':''])]"
  "nextPid loaded = 5" "jobs loaded = []" "reactions loaded = []"
  "promises loaded (Suc 0) = Fulfilled Undefined"
  "emitted loaded = []" "listeners loaded ''domino:moved'' = []"
  by (simp_all add: loaded_def loading_eq announce_def run_defs eval_nat_numeral)

lemma load_failed_fields:
  "domainName load_failed = ''dom''" "\<not> domainLoaded load_failed" "connected load_failed"
  "connectionPromise load_failed = Some 1"
  "nextPid load_failed = 5" "jobs load_failed = []" "reactions load_failed = []"
  "promises load_failed (Suc 0) = Fulfilled Undefined"
  "promises load_failed 2 = Rejected (Str ''boom'')"
  "console load_failed = [(''[NodeDomain] Error loading domain '' @ [CHR 0x22] @ ''dom'' @ [CHR 0x22] @ '': '', Str ''boom'')]"
  by (simp_all add: load_failed_def loading_eq run_defs eval_nat_numeral)


lemma step_runNextJob: "jobs w \<noteq> [] \<Longrightarrow> step w (runNextJob w)"
  by (cases "jobs w") (simp_all add: runNextJob_def step.job)
section \<open>The event relays\<close>

lemma installRelay_fields [simp]:
  "domainName (installRelay e w) = domainName w"
  "domainPath (installRelay e w) = domainPath w"
  "domainLoaded (installRelay e w) = domainLoaded w"
  "connectionPromise (installRelay e w) = connectionPromise w"
  "domainEvents (installRelay e w) = domainEvents w"
  "emitted (installRelay e w) = emitted w"
  by (simp_all add: installRelay_def on_def getListeners_def Let_def)

lemma installRelay_listeners:
  "listeners (installRelay e w) k =
     (if k = domainName w @ '':'' @ e \<and> listeners w k = [] then [Relay e] else listeners w k)"
  by (auto simp: installRelay_def on_def getListeners_def Let_def)


lemma fold_installRelay_fields [simp]:
  "domainName (fold installRelay evs w) = domainName w"
  "domainPath (fold installRelay evs w) = domainPath w"
  "domainLoaded (fold installRelay evs w) = domainLoaded w"
  "connectionPromise (fold installRelay evs w) = connectionPromise w"
  "domainEvents (fold installRelay evs w) = domainEvents w"
  "emitted (fold installRelay evs w) = emitted w"
  by (induction evs arbitrary: w) simp_all

lemma fold_installRelay_listeners:
  "listeners (fold installRelay evs w) k =
     (if listeners w k = []
      then (case find (\<lambda>e. domainName w @ '':'' @ e = k) evs of None \<Rightarrow> [] | Some e \<Rightarrow> [Relay e])
      else listeners w k)"
proof (induction evs arbitrary: w)
  case Nil
  show ?case by simp
next
  case (Cons e evs)
  show ?case
    by (simp add: Cons.IH installRelay_listeners) 
qed


lemma find_relay_key:
  "e \<in> set evs \<Longrightarrow> find (\<lambda>x. x = e) evs = Some e"
  by (induction evs) auto

lemma refreshInterface_listeners:
  assumes "refreshInterface w = Inr w'"
  shows "listeners w' k =
     (if listeners w k = []
      then (case find (\<lambda>e. domainName w @ '':'' @ e = k) (the (domainEvents w (domainName w))) of
              None \<Rightarrow> [] | Some e \<Rightarrow> [Relay e])
      else listeners w k)"
  using assms by (auto simp: refreshInterface_def fold_installRelay_listeners split: option.splits)








text \<open>
  Claim C8. A relay, called with the arguments \<open>args\<close>, emits its event once under the bare
  name, with \<open>args\<close> as the payload, and changes nothing else. Let \<open>refreshInterface\<close>
  install the relay of the advertised event \<open>e\<close>, under a key that held no listener. Then
  the key holds that relay alone, and when the connection fires the key with the arguments
  \<open>args\<close>, the only change is that the proxy emits \<open>e\<close> once, with \<open>args\<close> as its payload;
  the same holds in any state in which the relay is the listener of the key.
\<close>

theorem relay_emits_once:
  assumes "refreshInterface w = Inr w'"
    and "domainEvents w (domainName w) = Some evs"
    and "e \<in> set evs"
    and "getListeners (domainName w @ '':'' @ e) w = []"
  shows "getListeners (domainName w @ '':'' @ e) w' = [Relay e]
       \<and> emit (domainName w @ '':'' @ e) args w' = (None, w'\<lparr>emitted := emitted w' @ [(e, args)]\<rparr>)
       \<and> emitted (snd (emit (domainName w @ '':'' @ e) args w')) = emitted w @ [(e, args)]
       \<and> (\<forall>u. invokeListener args (Relay e) u = (None, u\<lparr>emitted := emitted u @ [(e, args)]\<rparr>))
       \<and> (\<forall>u key. getListeners key u = [Relay e] \<longrightarrow>
              emit key args u = (None, u\<lparr>emitted := emitted u @ [(e, args)]\<rparr>))"
proof -
  have l: "getListeners (domainName w @ '':'' @ e) w' = [Relay e]"
    using assms
    by (simp add: getListeners_def refreshInterface_listeners [OF assms(1)] find_relay_key)
  have em: "emitted w' = emitted w"
    using assms(1,2) by (auto simp: refreshInterface_def)
  have g: "\<forall>u key. getListeners key u = [Relay e] \<longrightarrow>
              emit key args u = (None, u\<lparr>emitted := emitted u @ [(e, args)]\<rparr>)"
    by (simp add: emit_def emitEvent_def)
  have i: "\<forall>u. invokeListener args (Relay e) u = (None, u\<lparr>emitted := emitted u @ [(e, args)]\<rparr>)"
    by (simp add: emitEvent_def)
  have "emit (domainName w @ '':'' @ e) args w' = (None, w'\<lparr>emitted := emitted w' @ [(e, args)]\<rparr>)"
    using g l by blast
  moreover from this have "emitted (snd (emit (domainName w @ '':'' @ e) args w')) = emitted w @ [(e, args)]"
    by (simp add: em)
  ultimately show ?thesis
    using l g i by blast
qed

theorem relay_emits_once_witness:
  "domainEvents (announce loading) (domainName (announce loading)) = Some [''changed'']
   \<and> getListeners ''dom:changed'' (announce loading) = []
   \<and> emitted (announce loading) = []
   \<and> (\<exists>w'. refreshInterface (announce loading) = Inr w'
          \<and> getListeners ''dom:changed'' w' = [Relay ''changed'']
          \<and> emit ''dom:changed'' [Obj [(''x'', Num 1)]] w'
                = (None, w'\<lparr>emitted := [(''changed'', [Obj [(''x'', Num 1)]])]\<rparr>))"
proof -
  have a: "domainEvents (announce loading) (domainName (announce loading)) = Some [''changed'']"
    "getListeners ''dom:changed'' (announce loading) = []"
    "emitted (announce loading) = []"
    "getListeners (domainName (announce loading) @ '':'' @ ''changed'') (announce loading) = []"
    by (simp_all add: announce_def loading_eq getListeners_def)
  have n: "domainName (announce loading) = ''dom''"
    by (simp add: announce_def loading_eq)
  have r: "refreshInterface (announce loading) = Inr (fold installRelay [''changed''] (announce loading))"
    using a(1) by (simp add: refreshInterface_def)
  have "\<exists>w'. refreshInterface (announce loading) = Inr w'
          \<and> getListeners ''dom:changed'' w' = [Relay ''changed'']
          \<and> emit ''dom:changed'' [Obj [(''x'', Num 1)]] w'
                = (None, w'\<lparr>emitted := [(''changed'', [Obj [(''x'', Num 1)]])]\<rparr>)"
    using relay_emits_once [OF r a(1) _ a(4), of "[Obj [(''x'', Num 1)]]"] r a(3) n by auto
  with a show ?thesis by blast
qed

section \<open>A reaction waits until its source is settled\<close>

lemma awaiting_kept: "awaiting rc w \<Longrightarrow> kept rc w"
  by (simp add: kept_def awaiting_def)

lemma awaiting_same:
  assumes "promises w' = promises w" "nextPid w' = nextPid w" "external w' = external w"
    "reactions w' = reactions w" "jobs w' = jobs w"
  shows "awaiting rc w' = awaiting rc w"
  by (simp add: awaiting_def wellFormed_def assms)

lemma awaiting_newPromise: "awaiting rc w \<Longrightarrow> awaiting rc (snd (newPromise st w))"
  unfolding awaiting_def wellFormed_def newPromise_def
  by (simp add: less_SucI)

lemma awaiting_newExternal: "awaiting rc w \<Longrightarrow> awaiting rc (snd (newExternal st w))"
  unfolding awaiting_def wellFormed_def newExternal_def newPromise_def
  by (auto simp: less_SucI)

lemma thenP_store:
  "fst (thenP p f r w) = nextPid w"
  "nextPid (snd (thenP p f r w)) = Suc (nextPid w)"
  "promises (snd (thenP p f r w)) = (promises w)(nextPid w := Pending)"
  "external (snd (thenP p f r w)) = external w"
  "reactions (snd (thenP p f r w)) =
     (if promises w p = Pending
      then reactions w @ [\<lparr>source = p, onFulfilled = f, onRejected = r, derived = nextPid w\<rparr>]
      else reactions w)"
  "jobs (snd (thenP p f r w)) =
     (if promises w p = Pending then jobs w
      else jobs w @ [(\<lparr>source = p, onFulfilled = f, onRejected = r, derived = nextPid w\<rparr>, promises w p)])"
  by (simp_all add: thenP_def newPromise_def Let_def)

lemma awaiting_thenP: "awaiting rc w \<Longrightarrow> awaiting rc (snd (thenP p f r w))"
  unfolding awaiting_def wellFormed_def
  by (auto simp: thenP_store less_SucI)

lemma awaiting_follow:
  "awaiting rc w \<Longrightarrow> d \<noteq> derived rc \<Longrightarrow> d < nextPid w \<Longrightarrow> awaiting rc (follow r d w)"
  unfolding awaiting_def wellFormed_def follow_def
  by (auto simp: Let_def)

lemma kept_settle:
  "awaiting rc w \<Longrightarrow> x \<noteq> derived rc \<Longrightarrow> kept rc (settle x st w)"
  unfolding kept_def awaiting_def wellFormed_def settle_def
  by auto

lemma awaiting_dequeue: "awaiting rc w \<Longrightarrow> jobs w = j # js \<Longrightarrow> awaiting rc (w\<lparr>jobs := js\<rparr>)"
  unfolding awaiting_def wellFormed_def
  by auto

lemma nextPid_newPromise: "nextPid (snd (newPromise st w)) = Suc (nextPid w)"
  by (simp add: newPromise_def)

lemma nextPid_newExternal: "nextPid (snd (newExternal st w)) = Suc (nextPid w)"
  by (simp add: newExternal_def newPromise_def)

lemma awaiting_loadDomains: "awaiting rc w \<Longrightarrow> awaiting rc (snd (loadDomains path a w))"
proof -
  assume a: "awaiting rc w"
  have "awaiting rc (snd (loadDomains path a w)) = awaiting rc (snd (newExternal Pending w))"
    by (rule awaiting_same) (simp_all add: loadDomains_def split_beta)
  with a show ?thesis by (simp add: awaiting_newExternal)
qed

lemma nextPid_loadDomains: "nextPid (snd (loadDomains path a w)) = Suc (nextPid w)"
  by (simp add: loadDomains_def split_beta nextPid_newExternal)

lemma awaiting_load: "awaiting rc w \<Longrightarrow> awaiting rc (snd (load w))"
  by (simp add: load_def split_beta awaiting_thenP awaiting_loadDomains)

lemma nextPid_load: "nextPid w \<le> nextPid (snd (load w))"
  by (simp add: load_def split_beta thenP_store nextPid_loadDomains)

lemma installRelay_store [simp]:
  "promises (installRelay e w) = promises w" "nextPid (installRelay e w) = nextPid w"
  "external (installRelay e w) = external w" "reactions (installRelay e w) = reactions w"
  "jobs (installRelay e w) = jobs w"
  by (simp_all add: installRelay_def on_def Let_def)

lemma fold_installRelay_store [simp]:
  "promises (fold installRelay evs w) = promises w" "nextPid (fold installRelay evs w) = nextPid w"
  "external (fold installRelay evs w) = external w" "reactions (fold installRelay evs w) = reactions w"
  "jobs (fold installRelay evs w) = jobs w"
  by (induction evs arbitrary: w) simp_all

lemma awaiting_refreshInterface:
  "awaiting rc w \<Longrightarrow> refreshInterface w = Inr w' \<Longrightarrow> awaiting rc w'"
  by (auto simp: refreshInterface_def split: option.splits intro: awaiting_same [THEN iffD2])

lemma awaiting_loadSuccess: "awaiting rc w \<Longrightarrow> awaiting rc (snd (loadSuccess w))"
proof -
  assume a: "awaiting rc w"
  let ?w1 = "w\<lparr>domainLoaded := True, connectionPromise := None\<rparr>"
  have a1: "awaiting rc ?w1"
    using a by (simp add: awaiting_same [of ?w1 w])
  show ?thesis
  proof (cases "refreshInterface ?w1")
    case (Inl e)
    with a1 show ?thesis by (simp add: loadSuccess_def)
  next
    case (Inr w2)
    with a1 awaiting_refreshInterface [OF a1 Inr] show ?thesis by (simp add: loadSuccess_def)
  qed
qed

lemma nextPid_loadSuccess: "nextPid (snd (loadSuccess w)) = nextPid w"
  by (auto simp: loadSuccess_def refreshInterface_def Let_def split: option.splits sum.splits)

lemma awaiting_loadFailure: "awaiting rc w \<Longrightarrow> awaiting rc (snd (loadFailure err w))"
  by (simp add: loadFailure_def awaiting_same [of "w\<lparr>console := c\<rparr>" w for c])

lemma awaiting_execConnected: "awaiting rc w \<Longrightarrow> awaiting rc (snd (execConnected name params w))"
  by (auto simp: execConnected_def Let_def Promise_reject_def split_beta awaiting_newExternal
      awaiting_newPromise split: option.splits cmd_result.splits property.splits)

lemma nextPid_execConnected: "nextPid w \<le> nextPid (snd (execConnected name params w))"
  by (auto simp: execConnected_def Let_def Promise_reject_def split_beta nextPid_newExternal
      nextPid_newPromise split: option.splits cmd_result.splits property.splits)

lemma awaiting_runCallback: "awaiting rc w \<Longrightarrow> awaiting rc (snd (runCallback cb v w))"
  by (cases cb)
     (auto simp: split_beta awaiting_load awaiting_loadSuccess awaiting_loadFailure
        awaiting_execConnected split: sum.splits prod.splits val.splits)

lemma nextPid_runCallback: "nextPid w \<le> nextPid (snd (runCallback cb v w))"
  by (cases cb)
     (auto simp: split_beta nextPid_load nextPid_loadSuccess loadFailure_def
        nextPid_execConnected split: sum.splits prod.splits val.splits)

lemma kept_resolveWith:
  "awaiting rc w \<Longrightarrow> d \<noteq> derived rc \<Longrightarrow> d < nextPid w \<Longrightarrow> kept rc (resolveWith d c w)"
  by (cases c) (simp_all add: resolveWith_def kept_settle awaiting_follow awaiting_kept)

lemma kept_runJob:
  assumes a: "awaiting rc w" and j: "jobs w = j # js"
  shows "kept rc (runJob j (w\<lparr>jobs := js\<rparr>))"
proof -
  let ?w0 = "w\<lparr>jobs := js\<rparr>"
  obtain r st where jeq: "j = (r, st)" by (cases j)
  have a0: "awaiting rc ?w0"
    using a j by (rule awaiting_dequeue)
  have "j \<in> set (jobs w)"
    using j by simp
  with a have d: "derived r \<noteq> derived rc" "derived r < nextPid w"
    by (auto simp: awaiting_def wellFormed_def jeq)
  have cb: "kept rc (resolveWith (derived r) (fst (runCallback c v ?w0)) (snd (runCallback c v ?w0)))" for c v
  proof (rule kept_resolveWith)
    show "awaiting rc (snd (runCallback c v ?w0))"
      using a0 by (rule awaiting_runCallback)
    show "derived r \<noteq> derived rc" by (rule d(1))
    have "nextPid ?w0 \<le> nextPid (snd (runCallback c v ?w0))"
      by (rule nextPid_runCallback)
    with d(2) show "derived r < nextPid (snd (runCallback c v ?w0))" by simp
  qed
  have pass: "kept rc (settle (derived r) s ?w0)" for s
    using a0 d(1) by (rule kept_settle)
  show ?thesis
  proof (cases st)
    case Pending
    with a0 show ?thesis by (simp add: runJob_def jeq awaiting_kept)
  next
    case (Fulfilled v)
    then show ?thesis
      using cb pass by (simp add: runJob_def jeq split_beta split: option.splits)
  next
    case (Rejected e)
    then show ?thesis
      using cb pass by (simp add: runJob_def jeq split_beta split: option.splits)
  qed
qed

lemma awaiting_closeHandler: "awaiting rc w \<Longrightarrow> awaiting rc (snd (closeHandler rx p w))"
proof -
  assume a: "awaiting rc w"
  let ?w2 = "(off rx w)\<lparr>domainLoaded := False\<rparr>"
  have "awaiting rc ?w2 = awaiting rc w"
    by (rule awaiting_same) (simp_all add: off_def)
  with a have w2: "awaiting rc ?w2"
    by simp
  show ?thesis
  proof (cases "\<exists>q. p = PromiseRef q")
    case True
    then obtain q where q: "p = PromiseRef q" by blast
    have "awaiting rc (snd (thenP q (Some Load) None ?w2))"
      using w2 by (rule awaiting_thenP)
    moreover have "awaiting rc (snd (closeHandler rx p w)) = awaiting rc (snd (thenP q (Some Load) None ?w2))"
      by (rule awaiting_same) (simp_all add: closeHandler_def Let_def split_beta q)
    ultimately show ?thesis by simp
  next
    case False
    then have "snd (closeHandler rx p w) = ?w2"
      by (cases p) (simp_all add: closeHandler_def Let_def)
    with w2 show ?thesis by simp
  qed
qed

lemma awaiting_invokeListener: "awaiting rc w \<Longrightarrow> awaiting rc (snd (invokeListener args l w))"
proof (cases l)
  case (Relay domainEvent)
  assume "awaiting rc w"
  then show ?thesis
    by (simp add: Relay emitEvent_def awaiting_same [of "w\<lparr>emitted := x\<rparr>" w for x])
next
  case (CloseHandler domainPrefix)
  assume "awaiting rc w"
  then show ?thesis
    by (simp add: CloseHandler awaiting_closeHandler)
next
  case (Foreign n)
  assume "awaiting rc w"
  then show ?thesis
    by (simp add: Foreign)
qed

lemma awaiting_dispatch: "awaiting rc w \<Longrightarrow> awaiting rc (snd (dispatch args ls w))"
proof (induction ls arbitrary: w)
  case Nil
  then show ?case by simp
next
  case (Cons l ls)
  obtain x w' where r: "invokeListener args l w = (x, w')"
    by (cases "invokeListener args l w")
  have w': "awaiting rc w'"
    using awaiting_invokeListener [OF Cons.prems, of args l] by (simp add: r)
  show ?case
  proof (cases x)
    case None
    with r Cons.IH [OF w'] show ?thesis by simp
  next
    case (Some e)
    with r w' show ?thesis by simp
  qed
qed

lemma awaiting_emit: "awaiting rc w \<Longrightarrow> awaiting rc (snd (emit key args w))"
  by (simp add: emit_def awaiting_dispatch)

lemma awaiting_exec: "awaiting rc w \<Longrightarrow> awaiting rc (snd (exec name params w))"
  by (auto simp: exec_def split_beta Promise_reject_def awaiting_execConnected awaiting_thenP
      awaiting_newPromise split: option.splits)

lemma awaiting_promise: "awaiting rc w \<Longrightarrow> awaiting rc (snd (promise w))"
  by (auto simp: promise_def split_beta Promise_reject_def Promise_resolve_def awaiting_newPromise
      split: option.splits)

lemma awaiting_transport:
  "awaiting rc (w\<lparr>connected := a, domains := b, domainEvents := c\<rparr>) = awaiting rc w"
  by (rule awaiting_same) simp_all

lemma awaiting_on: "awaiting rc (on key l w) = awaiting rc w"
  by (rule awaiting_same) (simp_all add: on_def)

lemma kept_step:
  assumes "step w w'" and "awaiting rc w"
  shows "kept rc w'"
  using assms
proof (induction rule: step.induct)
  case (job w j js)
  then show ?case by (simp add: kept_runJob)
next
  case (settled p w st)
  then have "p \<noteq> derived rc" by (auto simp: awaiting_def)
  with settled show ?case by (simp add: kept_settle)
next
  case transport
  then show ?case by (simp add: awaiting_kept awaiting_transport)
next
  case (closed w p w')
  then have "w' = snd (newExternal Pending w)" by simp
  with closed show ?case by (simp add: awaiting_kept awaiting_emit awaiting_newExternal)
next
  case (fired w key args)
  then show ?case by (simp add: awaiting_kept awaiting_emit)
next
  case (exec_called w name params)
  then show ?case by (simp add: awaiting_kept awaiting_exec)
next
  case (promise_called w)
  then show ?case by (simp add: awaiting_kept awaiting_promise)
next
  case (refreshed w w')
  then show ?case by (simp add: awaiting_kept awaiting_refreshInterface)
next
  case subscribed
  then show ?case by (simp add: awaiting_kept awaiting_on)
qed

subsection \<open>A settled promise stays as it is\<close>

lemma frozen_same:
  assumes "promises w' = promises w" "nextPid w' = nextPid w"
  shows "frozen p st w' = frozen p st w"
  by (simp add: frozen_def assms)

lemma frozen_newPromise: "frozen p st w \<Longrightarrow> frozen p st (snd (newPromise s w))"
  by (auto simp: frozen_def newPromise_def)

lemma frozen_newExternal: "frozen p st w \<Longrightarrow> frozen p st (snd (newExternal s w))"
  by (auto simp: frozen_def newExternal_def newPromise_def)

lemma frozen_thenP: "frozen p st w \<Longrightarrow> frozen p st (snd (thenP x f r w))"
  by (auto simp: frozen_def thenP_store)

lemma frozen_follow: "frozen p st w \<Longrightarrow> frozen p st (follow r d w)"
  by (auto simp: frozen_def follow_def Let_def)

lemma frozen_settle: "frozen p st w \<Longrightarrow> frozen p st (settle x s w)"
  by (auto simp: frozen_def settle_def)

lemma frozen_loadDomains: "frozen p st w \<Longrightarrow> frozen p st (snd (loadDomains path a w))"
proof -
  assume a: "frozen p st w"
  have "frozen p st (snd (loadDomains path a w)) = frozen p st (snd (newExternal Pending w))"
    by (rule frozen_same) (simp_all add: loadDomains_def split_beta)
  with a show ?thesis by (simp add: frozen_newExternal)
qed

lemma frozen_load: "frozen p st w \<Longrightarrow> frozen p st (snd (load w))"
  by (simp add: load_def split_beta frozen_thenP frozen_loadDomains)

lemma frozen_refreshInterface:
  "frozen p st w \<Longrightarrow> refreshInterface w = Inr w' \<Longrightarrow> frozen p st w'"
  by (auto simp: refreshInterface_def split: option.splits intro: frozen_same [THEN iffD2])

lemma frozen_loadSuccess: "frozen p st w \<Longrightarrow> frozen p st (snd (loadSuccess w))"
proof -
  assume a: "frozen p st w"
  let ?w1 = "w\<lparr>domainLoaded := True, connectionPromise := None\<rparr>"
  have a1: "frozen p st ?w1"
    using a by (simp add: frozen_same [of ?w1 w])
  show ?thesis
  proof (cases "refreshInterface ?w1")
    case (Inl e)
    with a1 show ?thesis by (simp add: loadSuccess_def)
  next
    case (Inr w2)
    with a1 frozen_refreshInterface [OF a1 Inr] show ?thesis by (simp add: loadSuccess_def)
  qed
qed

lemma frozen_loadFailure: "frozen p st w \<Longrightarrow> frozen p st (snd (loadFailure err w))"
  by (simp add: loadFailure_def frozen_same [of "w\<lparr>console := c\<rparr>" w for c])

lemma frozen_execConnected: "frozen p st w \<Longrightarrow> frozen p st (snd (execConnected name params w))"
  by (auto simp: execConnected_def Let_def Promise_reject_def split_beta frozen_newExternal
      frozen_newPromise split: option.splits cmd_result.splits property.splits)

lemma frozen_runCallback: "frozen p st w \<Longrightarrow> frozen p st (snd (runCallback cb v w))"
  by (cases cb)
     (auto simp: split_beta frozen_load frozen_loadSuccess frozen_loadFailure
        frozen_execConnected split: sum.splits prod.splits val.splits)

lemma frozen_resolveWith: "frozen p st w \<Longrightarrow> frozen p st (resolveWith d c w)"
  by (cases c) (simp_all add: resolveWith_def frozen_settle frozen_follow)

lemma frozen_runJob: "frozen p st w \<Longrightarrow> frozen p st (runJob j (w\<lparr>jobs := js\<rparr>))"
proof -
  assume a: "frozen p st w"
  have a0: "frozen p st (w\<lparr>jobs := js\<rparr>)"
    using a by (simp add: frozen_same [of "w\<lparr>jobs := js\<rparr>" w])
  obtain r s where jeq: "j = (r, s)" by (cases j)
  show ?thesis
    using a0
    by (cases s)
       (simp_all add: runJob_def jeq split_beta frozen_settle frozen_resolveWith frozen_runCallback
          split: option.splits)
qed

lemma frozen_closeHandler: "frozen p st w \<Longrightarrow> frozen p st (snd (closeHandler rx x w))"
proof -
  assume a: "frozen p st w"
  let ?w2 = "(off rx w)\<lparr>domainLoaded := False\<rparr>"
  have "frozen p st ?w2 = frozen p st w"
    by (rule frozen_same) (simp_all add: off_def)
  with a have w2: "frozen p st ?w2"
    by simp
  show ?thesis
  proof (cases "\<exists>q. x = PromiseRef q")
    case True
    then obtain q where q: "x = PromiseRef q" by blast
    have "frozen p st (snd (thenP q (Some Load) None ?w2))"
      using w2 by (rule frozen_thenP)
    moreover have "frozen p st (snd (closeHandler rx x w)) = frozen p st (snd (thenP q (Some Load) None ?w2))"
      by (rule frozen_same) (simp_all add: closeHandler_def Let_def split_beta q)
    ultimately show ?thesis by simp
  next
    case False
    then have "snd (closeHandler rx x w) = ?w2"
      by (cases x) (simp_all add: closeHandler_def Let_def)
    with w2 show ?thesis by simp
  qed
qed

lemma frozen_invokeListener: "frozen p st w \<Longrightarrow> frozen p st (snd (invokeListener args l w))"
proof (cases l)
  case (Relay domainEvent)
  assume "frozen p st w"
  then show ?thesis
    by (simp add: Relay emitEvent_def frozen_same [of "w\<lparr>emitted := x\<rparr>" w for x])
next
  case (CloseHandler domainPrefix)
  assume "frozen p st w"
  then show ?thesis
    by (simp add: CloseHandler frozen_closeHandler)
next
  case (Foreign n)
  assume "frozen p st w"
  then show ?thesis
    by (simp add: Foreign)
qed

lemma frozen_dispatch: "frozen p st w \<Longrightarrow> frozen p st (snd (dispatch args ls w))"
proof (induction ls arbitrary: w)
  case Nil
  then show ?case by simp
next
  case (Cons l ls)
  obtain x w' where r: "invokeListener args l w = (x, w')"
    by (cases "invokeListener args l w")
  have w': "frozen p st w'"
    using frozen_invokeListener [OF Cons.prems, of args l] by (simp add: r)
  show ?case
  proof (cases x)
    case None
    with r Cons.IH [OF w'] show ?thesis by simp
  next
    case (Some e)
    with r w' show ?thesis by simp
  qed
qed

lemma frozen_emit: "frozen p st w \<Longrightarrow> frozen p st (snd (emit key args w))"
  by (simp add: emit_def frozen_dispatch)

lemma frozen_exec: "frozen p st w \<Longrightarrow> frozen p st (snd (exec name params w))"
  by (auto simp: exec_def split_beta Promise_reject_def frozen_execConnected frozen_thenP
      frozen_newPromise split: option.splits)

lemma frozen_promise: "frozen p st w \<Longrightarrow> frozen p st (snd (promise w))"
  by (auto simp: promise_def split_beta Promise_reject_def Promise_resolve_def frozen_newPromise
      split: option.splits)

lemma frozen_transport:
  "frozen p st (w\<lparr>connected := a, domains := b, domainEvents := c\<rparr>) = frozen p st w"
  by (rule frozen_same) simp_all

lemma frozen_on: "frozen p st (on key l w) = frozen p st w"
  by (rule frozen_same) (simp_all add: on_def)

lemma frozen_step:
  assumes "step w w'" and "frozen p st w"
  shows "frozen p st w'"
  using assms
proof (induction rule: step.induct)
  case (closed w x w')
  then have "w' = snd (newExternal Pending w)" by simp
  with closed show ?case by (simp add: frozen_emit frozen_newExternal)
qed (simp_all add: frozen_runJob frozen_settle frozen_transport frozen_emit frozen_exec
      frozen_promise frozen_refreshInterface frozen_on)

lemma frozen_steps:
  assumes "step\<^sup>*\<^sup>* w w'" and "frozen p st w"
  shows "frozen p st w'"
  using assms by (induction rule: rtranclp_induct) (simp_all add: frozen_step)

text \<open>Along any run, the reaction waits until its source is settled.\<close>

lemma awaiting_or_settled:
  assumes "step\<^sup>*\<^sup>* w w'" and "awaiting rc w"
  shows "awaiting rc w' \<or> (\<exists>st. frozen (source rc) st w')"
  using assms
proof (induction rule: rtranclp_induct)
  case base
  then show ?case by simp
next
  case (step y z)
  from step.IH [OF step.prems] show ?case
  proof
    assume "awaiting rc y"
    with step.hyps(2) have "kept rc z" by (rule kept_step)
    then show ?thesis by (cases "promises z (source rc) = Pending") (simp_all add: kept_def frozen_def)
  next
    assume "\<exists>st. frozen (source rc) st y"
    with step.hyps(2) show ?thesis by (auto intro: frozen_step)
  qed
qed

lemma awaiting_steps:
  assumes "step\<^sup>*\<^sup>* w w'" and "awaiting rc w" and "promises w' (source rc) = Pending"
  shows "awaiting rc w'"
  using awaiting_or_settled [OF assms(1,2)] assms(3) by (auto simp: frozen_def)

section \<open>Every state of a run is sound\<close>

lemma sound_same:
  assumes "nextPid w' = nextPid w" "external w' = external w" "reactions w' = reactions w"
    "jobs w' = jobs w" "connectionPromise w' = connectionPromise w"
  shows "sound w' = sound w"
  by (simp add: sound_def wellFormed_def assms)

lemma sound_newPromise: "sound w \<Longrightarrow> sound (snd (newPromise st w))"
  unfolding sound_def wellFormed_def newPromise_def
  by (auto simp: less_SucI )

lemma sound_newExternal: "sound w \<Longrightarrow> sound (snd (newExternal st w))"
  unfolding sound_def wellFormed_def newExternal_def newPromise_def
  by (auto simp: less_SucI split: option.splits)

lemma sound_thenP: "sound w \<Longrightarrow> sound (snd (thenP p f r w))"
  unfolding sound_def wellFormed_def
  by (auto simp: thenP_store thenP_def newPromise_def Let_def less_SucI split: option.splits)

lemma sound_follow: "sound w \<Longrightarrow> d < nextPid w \<Longrightarrow> sound (follow r d w)"
  unfolding sound_def wellFormed_def follow_def
  by (auto simp: Let_def split: option.splits)

lemma sound_settle: "sound w \<Longrightarrow> sound (settle x st w)"
  unfolding sound_def wellFormed_def settle_def
  by (auto split: option.splits)

lemma sound_loadDomains: "sound w \<Longrightarrow> sound (snd (loadDomains path a w))"
proof -
  assume a: "sound w"
  have "sound (snd (loadDomains path a w)) = sound (snd (newExternal Pending w))"
    by (rule sound_same) (simp_all add: loadDomains_def split_beta)
  with a show ?thesis by (simp add: sound_newExternal)
qed

lemma sound_load: "sound w \<Longrightarrow> sound (snd (load w))"
  by (simp add: load_def split_beta sound_thenP sound_loadDomains)

lemma sound_refreshInterface: "sound w \<Longrightarrow> refreshInterface w = Inr w' \<Longrightarrow> sound w'"
  by (auto simp: refreshInterface_def split: option.splits intro: sound_same [THEN iffD2])

lemma sound_loadSuccess: "sound w \<Longrightarrow> sound (snd (loadSuccess w))"
proof -
  assume a: "sound w"
  let ?w1 = "w\<lparr>domainLoaded := True, connectionPromise := None\<rparr>"
  have a1: "sound ?w1"
    using a by (simp add: sound_def wellFormed_def)
  show ?thesis
  proof (cases "refreshInterface ?w1")
    case (Inl e)
    with a1 show ?thesis by (simp add: loadSuccess_def)
  next
    case (Inr w2)
    with a1 sound_refreshInterface [OF a1 Inr] show ?thesis by (simp add: loadSuccess_def)
  qed
qed

lemma sound_loadFailure: "sound w \<Longrightarrow> sound (snd (loadFailure err w))"
  by (simp add: loadFailure_def sound_same [of "w\<lparr>console := c\<rparr>" w for c])

lemma sound_execConnected: "sound w \<Longrightarrow> sound (snd (execConnected name params w))"
  by (auto simp: execConnected_def Let_def Promise_reject_def split_beta sound_newExternal
      sound_newPromise split: option.splits cmd_result.splits property.splits)

lemma sound_runCallback: "sound w \<Longrightarrow> sound (snd (runCallback cb v w))"
  by (cases cb)
     (auto simp: split_beta sound_load sound_loadSuccess sound_loadFailure
        sound_execConnected split: sum.splits prod.splits val.splits)

lemma sound_resolveWith: "sound w \<Longrightarrow> d < nextPid w \<Longrightarrow> sound (resolveWith d c w)"
  by (cases c) (simp_all add: resolveWith_def sound_settle sound_follow)

lemma sound_runJob:
  assumes a: "sound w" and j: "jobs w = j # js"
  shows "sound (runJob j (w\<lparr>jobs := js\<rparr>))"
proof -
  let ?w0 = "w\<lparr>jobs := js\<rparr>"
  obtain r st where jeq: "j = (r, st)" by (cases j)
  have a0: "sound ?w0"
    using a j by (auto simp: sound_def wellFormed_def)
  have "j \<in> set (jobs w)"
    using j by simp
  with a have d: "derived r < nextPid w"
    by (auto simp: sound_def wellFormed_def jeq)
  have cb: "sound (resolveWith (derived r) (fst (runCallback c v ?w0)) (snd (runCallback c v ?w0)))" for c v
  proof (rule sound_resolveWith)
    show "sound (snd (runCallback c v ?w0))"
      using a0 by (rule sound_runCallback)
    have "nextPid ?w0 \<le> nextPid (snd (runCallback c v ?w0))"
      by (rule nextPid_runCallback)
    with d show "derived r < nextPid (snd (runCallback c v ?w0))" by simp
  qed
  have pass: "sound (settle (derived r) s ?w0)" for s
    using a0 by (rule sound_settle)
  show ?thesis
  proof (cases st)
    case Pending
    with a0 show ?thesis by (simp add: runJob_def jeq)
  next
    case (Fulfilled v)
    then show ?thesis
      using cb pass by (simp add: runJob_def jeq split_beta split: option.splits)
  next
    case (Rejected e)
    then show ?thesis
      using cb pass by (simp add: runJob_def jeq split_beta split: option.splits)
  qed
qed

lemma sound_closeHandler: "sound w \<Longrightarrow> sound (snd (closeHandler rx p w))"
proof -
  assume a: "sound w"
  let ?w2 = "(off rx w)\<lparr>domainLoaded := False\<rparr>"
  have "sound ?w2 = sound w"
    by (rule sound_same) (simp_all add: off_def)
  with a have w2: "sound ?w2"
    by simp
  show ?thesis
  proof (cases "\<exists>q. p = PromiseRef q")
    case True
    then obtain q where q: "p = PromiseRef q" by blast
    let ?w3 = "snd (thenP q (Some Load) None ?w2)"
    have "wellFormed ?w3"
      using sound_thenP [OF w2, of q "Some Load" None] by (simp add: sound_def)
    moreover have "snd (closeHandler rx p w) = ?w3\<lparr>connectionPromise := Some (nextPid w)\<rparr>"
      by (simp add: closeHandler_def Let_def split_beta thenP_store off_def q)
    moreover have "nextPid ?w3 = Suc (nextPid w)"
      by (simp add: thenP_store off_def)
    ultimately show ?thesis
      by (simp add: sound_def wellFormed_def)
  next
    case False
    then have "snd (closeHandler rx p w) = ?w2"
      by (cases p) (simp_all add: closeHandler_def Let_def)
    with w2 show ?thesis by simp
  qed
qed

lemma sound_invokeListener: "sound w \<Longrightarrow> sound (snd (invokeListener args l w))"
proof (cases l)
  case (Relay domainEvent)
  assume "sound w"
  then show ?thesis
    by (simp add: Relay emitEvent_def sound_same [of "w\<lparr>emitted := x\<rparr>" w for x])
next
  case (CloseHandler domainPrefix)
  assume "sound w"
  then show ?thesis
    by (simp add: CloseHandler sound_closeHandler)
next
  case (Foreign n)
  assume "sound w"
  then show ?thesis
    by (simp add: Foreign)
qed

lemma sound_dispatch: "sound w \<Longrightarrow> sound (snd (dispatch args ls w))"
proof (induction ls arbitrary: w)
  case Nil
  then show ?case by simp
next
  case (Cons l ls)
  obtain x w' where r: "invokeListener args l w = (x, w')"
    by (cases "invokeListener args l w")
  have w': "sound w'"
    using sound_invokeListener [OF Cons.prems, of args l] by (simp add: r)
  show ?case
  proof (cases x)
    case None
    with r Cons.IH [OF w'] show ?thesis by simp
  next
    case (Some e)
    with r w' show ?thesis by simp
  qed
qed

lemma sound_emit: "sound w \<Longrightarrow> sound (snd (emit key args w))"
  by (simp add: emit_def sound_dispatch)

lemma sound_exec: "sound w \<Longrightarrow> sound (snd (exec name params w))"
  by (auto simp: exec_def split_beta Promise_reject_def sound_execConnected sound_thenP
      sound_newPromise split: option.splits)

lemma sound_promise: "sound w \<Longrightarrow> sound (snd (promise w))"
  by (auto simp: promise_def split_beta Promise_reject_def Promise_resolve_def sound_newPromise
      split: option.splits)

lemma sound_transport:
  "sound (w\<lparr>connected := a, domains := b, domainEvents := c\<rparr>) = sound w"
  by (rule sound_same) simp_all

lemma sound_on: "sound (on key l w) = sound w"
  by (rule sound_same) (simp_all add: on_def)

lemma sound_step:
  assumes "step w w'" and "sound w"
  shows "sound w'"
  using assms
proof (induction rule: step.induct)
  case (closed w x w')
  then have "w' = snd (newExternal Pending w)" by simp
  with closed show ?case by (simp add: sound_emit sound_newExternal)
qed (simp_all add: sound_runJob sound_settle sound_transport sound_emit sound_exec
      sound_promise sound_refreshInterface sound_on)

lemma sound_NodeDomain: "NodeDomain engine name path = Some w \<Longrightarrow> sound w"
  by (auto simp: NodeDomain_def connect_def newExternal_def newPromise_def thenP_def newWorld_def
      on_def sound_def wellFormed_def Let_def split: option.splits)

text \<open>Every state that a run reaches from a newly constructed proxy is sound.\<close>

lemma sound_reachable:
  assumes "NodeDomain engine name path = Some w" and "step\<^sup>*\<^sup>* w w'"
  shows "sound w'"
  using assms(2) sound_NodeDomain [OF assms(1)]
  by (induction rule: rtranclp_induct) (simp_all add: sound_step)

section \<open>The observers \<open>ready\<close>, \<open>promise\<close> and \<open>exec\<close>\<close>

lemma newPromise_fields [simp]:
  "domainName (snd (newPromise st w)) = domainName w"
  "domainPath (snd (newPromise st w)) = domainPath w"
  "domainLoaded (snd (newPromise st w)) = domainLoaded w"
  "connectionPromise (snd (newPromise st w)) = connectionPromise w"
  "reactions (snd (newPromise st w)) = reactions w"
  "jobs (snd (newPromise st w)) = jobs w"
  "fst (newPromise st w) = nextPid w"
  "promises (snd (newPromise st w)) (nextPid w) = st"
  by (simp_all add: newPromise_def)

lemma execConnected_frame:
  "domainName (snd (execConnected name params w)) = domainName w
   \<and> domainPath (snd (execConnected name params w)) = domainPath w
   \<and> domainLoaded (snd (execConnected name params w)) = domainLoaded w
   \<and> connectionPromise (snd (execConnected name params w)) = connectionPromise w"
  by (simp add: execConnected_def Promise_reject_def newExternal_def newPromise_def Let_def
      split: option.splits cmd_result.splits property.splits)

lemma exec_frame:
  "domainName (snd (exec name params w)) = domainName w
   \<and> domainPath (snd (exec name params w)) = domainPath w
   \<and> domainLoaded (snd (exec name params w)) = domainLoaded w
   \<and> connectionPromise (snd (exec name params w)) = connectionPromise w"
  by (simp add: exec_def execConnected_frame Promise_reject_def thenP_def newPromise_def Let_def
      split: option.splits)

lemma promise_frame:
  "domainName (snd (promise w)) = domainName w
   \<and> domainPath (snd (promise w)) = domainPath w
   \<and> domainLoaded (snd (promise w)) = domainLoaded w
   \<and> connectionPromise (snd (promise w)) = connectionPromise w"
  by (simp add: promise_def Promise_reject_def Promise_resolve_def newPromise_def split: option.splits)

lemma runCallback_exec_frame:
  "domainName (snd (runCallback (ExecConnected name params) v w)) = domainName w
   \<and> domainPath (snd (runCallback (ExecConnected name params) v w)) = domainPath w
   \<and> domainLoaded (snd (runCallback (ExecConnected name params) v w)) = domainLoaded w
   \<and> connectionPromise (snd (runCallback (ExecConnected name params) v w)) = connectionPromise w"
  using execConnected_frame [of name params w]
  by (simp add: split_beta split: sum.splits val.splits)

text \<open>
  Claim C9. \<open>ready\<close> is a function of the state alone and returns no state. After \<open>exec\<close>
  and after \<open>promise\<close> the fields \<open>_domainName\<close>, \<open>_domainPath\<close>, \<open>_domainLoaded\<close> and
  \<open>_connectionPromise\<close> hold the values they held before, and so does \<open>connected()\<close>, so
  that \<open>ready\<close> answers as before; the same holds when the deferred dispatch of \<open>exec\<close>
  runs later.
\<close>

theorem observers_frame:
  "domainName (snd (exec name params w)) = domainName w
   \<and> domainPath (snd (exec name params w)) = domainPath w
   \<and> domainLoaded (snd (exec name params w)) = domainLoaded w
   \<and> connectionPromise (snd (exec name params w)) = connectionPromise w
   \<and> domainName (snd (promise w)) = domainName w
   \<and> domainPath (snd (promise w)) = domainPath w
   \<and> domainLoaded (snd (promise w)) = domainLoaded w
   \<and> connectionPromise (snd (promise w)) = connectionPromise w
   \<and> domainName (snd (runCallback (ExecConnected name params) v w)) = domainName w
   \<and> domainPath (snd (runCallback (ExecConnected name params) v w)) = domainPath w
   \<and> domainLoaded (snd (runCallback (ExecConnected name params) v w)) = domainLoaded w
   \<and> connectionPromise (snd (runCallback (ExecConnected name params) v w)) = connectionPromise w"
  using exec_frame [of name params w] promise_frame [of w] runCallback_exec_frame [of name params v w]
  by simp

theorem observers_frame_witness:
  "connectionPromise (snd (exec ''ping'' [Num 1, Num 2] constructed)) = Some 1
   \<and> domainLoaded (snd (exec ''ping'' [] loaded)) = True
   \<and> connectionPromise (snd (promise load_failed)) = Some 1
   \<and> domainName (snd (promise loaded)) = ''dom''"
  using observers_frame [of "''ping''" "[Num 1, Num 2]" constructed]
    observers_frame [of "''ping''" "[]" loaded] observers_frame [of _ _ load_failed]
  by (simp add: constructed_eq loaded_fields load_failed_fields)

lemma loaded_ready: "ready loaded"
  by (simp add: ready_def loaded_fields)

lemma loaded_reads:
  "domains loaded (domainName loaded) = Some (plainObject remote_commands)"
  "own (plainObject remote_commands) ''toString'' = None"
  "own (plainObject remote_commands) ''__proto__'' = None"
  "own (plainObject remote_commands) ''doesNotExist'' = None"
  "getProperty (plainObject remote_commands) ''toString''
     = Applicable (\<lambda>params. ReturnsValue (Str ''[object Object]''))"
  "getProperty (plainObject remote_commands) ''__proto__'' = Inapplicable"
  "getProperty (plainObject remote_commands) ''doesNotExist'' = Falsy"
  "getProperty (plainObject remote_commands) ''crash'' = Applicable (\<lambda>params. Throws (Str ''boom''))"
  "getProperty (plainObject remote_commands) ''ping''
     = Applicable (\<lambda>params. Returns (Fulfilled (Str ''pong'')))"
  by (simp_all add: loaded_fields plainObject_def inherited_members_def remote_commands_def
      getProperty_def)

text \<open>
  When the read \<open>domain[name]\<close> is falsy, as it is for a name that neither the table nor the
  prototype chain has, \<open>exec\<close> on a ready proxy returns a new promise that is already
  rejected.
\<close>

lemma exec_falsy_rejected:
  assumes "ready w"
    and "domains w (domainName w) = None
         \<or> (\<exists>obj. domains w (domainName w) = Some obj \<and> getProperty obj name = Falsy)"
  shows "exec name params w = (Inr (PromiseRef (nextPid w)), snd (Promise_reject w))
       \<and> promises (snd (exec name params w)) (nextPid w) = Rejected Undefined"
  using assms by (auto simp: exec_def execConnected_def Promise_reject_def newPromise_def)

text \<open>\<open>exec\<close> on a ready proxy applies whatever truthy value the read gives.\<close>

lemma exec_ready_applies:
  assumes "ready w" and "domains w (domainName w) = Some obj"
  shows "getProperty obj name = Applicable f \<Longrightarrow> f params = ReturnsValue v \<Longrightarrow>
           exec name params w = (Inr v, w)"
    and "getProperty obj name = Applicable f \<Longrightarrow> f params = Throws e \<Longrightarrow>
           exec name params w = (Inl e, w)"
    and "getProperty obj name = Inapplicable \<Longrightarrow> exec name params w = (Inl (Str ''TypeError''), w)"
  using assms by (simp_all add: exec_def execConnected_def)

text \<open>
  Claim C6 on the code. The proxy of \<open>dom\<close> is ready; its table has the commands \<open>ping\<close>
  and \<open>crash\<close>. The names \<open>toString\<close> and \<open>__proto__\<close> are absent from the table, yet the
  read \<open>domain[name]\<close> finds them on \<open>Object.prototype\<close>: \<open>exec\<close> applies the first and
  returns the string \<open>[object Object]\<close>, no promise at all, and throws a TypeError on the
  second. Only a name that the prototype chain does not have either, such as
  \<open>doesNotExist\<close>, gets the rejected promise.
\<close>

theorem exec_absent_name_not_rejected:
  "ready loaded
   \<and> domains loaded (domainName loaded) = Some (plainObject remote_commands)
   \<and> own (plainObject remote_commands) ''toString'' = None
   \<and> exec ''toString'' [] loaded = (Inr (Str ''[object Object]''), loaded)
   \<and> own (plainObject remote_commands) ''__proto__'' = None
   \<and> exec ''__proto__'' [] loaded = (Inl (Str ''TypeError''), loaded)
   \<and> own (plainObject remote_commands) ''doesNotExist'' = None
   \<and> fst (exec ''doesNotExist'' [] loaded) = Inr (PromiseRef 5)
   \<and> promises (snd (exec ''doesNotExist'' [] loaded)) 5 = Rejected Undefined"
proof -
  have a: "exec ''toString'' [] loaded = (Inr (Str ''[object Object]''), loaded)"
    using loaded_ready loaded_reads(1) loaded_reads(5) by (rule exec_ready_applies(1)) simp
  have b: "exec ''__proto__'' [] loaded = (Inl (Str ''TypeError''), loaded)"
    using loaded_ready loaded_reads(1) loaded_reads(6) by (rule exec_ready_applies(3))
  have "domains loaded (domainName loaded) = None
         \<or> (\<exists>obj. domains loaded (domainName loaded) = Some obj \<and> getProperty obj ''doesNotExist'' = Falsy)"
    by (simp add: loaded_reads)
  from exec_falsy_rejected [OF loaded_ready this, of "[]"]
  have "fst (exec ''doesNotExist'' [] loaded) = Inr (PromiseRef (nextPid loaded))"
    "promises (snd (exec ''doesNotExist'' [] loaded)) (nextPid loaded) = Rejected Undefined"
    by (simp_all add: Promise_reject_def)
  then have c: "fst (exec ''doesNotExist'' [] loaded) = Inr (PromiseRef 5)"
    "promises (snd (exec ''doesNotExist'' [] loaded)) 5 = Rejected Undefined"
    by (simp_all add: loaded_fields)
  from loaded_ready loaded_reads(1-4) a b c show ?thesis by blast
qed

text \<open>
  Claim C7. With no pending readiness promise and the proxy not ready, \<open>promise\<close> and
  \<open>exec\<close> both return a new promise that is already rejected, and register nothing to wait
  for: the reactions and the job queue are as before. With a pending readiness promise,
  \<open>promise\<close> returns that very promise and changes nothing.
\<close>

theorem not_ready_no_pending_rejects:
  "(connectionPromise w = None \<and> \<not> ready w \<longrightarrow>
      promise w = (Inr (nextPid w), snd (Promise_reject w))
    \<and> exec name params w = (Inr (PromiseRef (nextPid w)), snd (Promise_reject w))
    \<and> promises (snd (Promise_reject w)) (nextPid w) = Rejected Undefined
    \<and> reactions (snd (Promise_reject w)) = reactions w
    \<and> jobs (snd (Promise_reject w)) = jobs w)
   \<and> (connectionPromise w = Some p \<longrightarrow> promise w = (Inr p, w))"
  by (simp add: promise_def exec_def Promise_reject_def newPromise_def)

theorem not_ready_no_pending_rejects_witness:
  "connectionPromise (loaded\<lparr>connected := False\<rparr>) = None \<and> \<not> ready (loaded\<lparr>connected := False\<rparr>)
   \<and> fst (promise (loaded\<lparr>connected := False\<rparr>)) = Inr 5
   \<and> fst (exec ''ping'' [] (loaded\<lparr>connected := False\<rparr>)) = Inr (PromiseRef 5)
   \<and> promises (snd (exec ''ping'' [] (loaded\<lparr>connected := False\<rparr>))) 5 = Rejected Undefined
   \<and> promises (snd (promise (loaded\<lparr>connected := False\<rparr>))) 5 = Rejected Undefined
   \<and> connectionPromise constructed = Some 1
   \<and> promise constructed = (Inr 1, constructed)"
proof -
  let ?w = "loaded\<lparr>connected := False\<rparr>"
  have h: "connectionPromise ?w = None \<and> \<not> ready ?w"
    by (simp add: ready_def loaded_fields)
  have n: "nextPid ?w = 5"
    by (simp add: loaded_fields)
  have c: "connectionPromise constructed = Some 1"
    by (simp add: constructed_eq)
  from not_ready_no_pending_rejects [of ?w "''ping''" "[]"] h n
    not_ready_no_pending_rejects [of constructed _ _ 1] c
  show ?thesis by simp
qed

text \<open>
  When \<open>exec\<close> throws: exactly on a ready proxy, when the value that the read gives is
  applied and throws, or cannot be applied at all.
\<close>

lemma exec_throws_iff:
  "fst (exec name params w) = Inl e \<longleftrightarrow>
     ready w \<and> (\<exists>obj. domains w (domainName w) = Some obj
        \<and> ((getProperty obj name = Inapplicable \<and> e = Str ''TypeError'')
            \<or> (\<exists>f. getProperty obj name = Applicable f \<and> f params = Throws e)))"
  by (auto simp: exec_def execConnected_def split_beta Let_def
      split: option.splits cmd_result.splits property.splits)

lemma promise_returns: "\<exists>p. fst (promise w) = Inr p"
  by (simp add: promise_def split_beta split: option.splits)

text \<open>
  The deferred dispatch runs inside a job, so what the ready path throws to the caller
  rejects the promise that \<open>exec\<close> returned.
\<close>

lemma dispatch_job_rejects:
  assumes "promises w q = Pending" and "domains w (domainName w) = Some obj"
  shows "getProperty obj name = Applicable f \<Longrightarrow> f params = Throws e \<Longrightarrow>
           promises (runJob (\<lparr>source = p, onFulfilled = Some (ExecConnected name params),
              onRejected = r, derived = q\<rparr>, Fulfilled v) w) q = Rejected e"
    and "getProperty obj name = Inapplicable \<Longrightarrow>
           promises (runJob (\<lparr>source = p, onFulfilled = Some (ExecConnected name params),
              onRejected = r, derived = q\<rparr>, Fulfilled v) w) q = Rejected (Str ''TypeError'')"
  using assms by (simp_all add: runJob_def execConnected_def resolveWith_def settle_def)

lemma deferred_calls:
  "ready (announce loading) = False"
  "fst (exec ''crash'' [Num 7] (announce loading)) = Inr (PromiseRef 5)"
  "fst (exec ''__proto__'' [] (announce loading)) = Inr (PromiseRef 5)"
  by (simp_all add: exec_def ready_def announce_def loading_eq thenP_def newPromise_def)

lemma deferred_runs:
  "jobs crash_deferred = []" "ready crash_deferred"
  "promises crash_deferred 5 = Rejected (Str ''boom'')"
  "jobs proto_deferred = []" "ready proto_deferred"
  "promises proto_deferred 5 = Rejected (Str ''TypeError'')"
  by (simp_all add: crash_deferred_def proto_deferred_def exec_def ready_def announce_def loading_eq
      run_defs remote_commands_def plainObject_def inherited_members_def eval_nat_numeral)

text \<open>
  Claim C5 on the code. On the ready proxy of \<open>dom\<close>, \<open>exec\<close> with the name \<open>__proto__\<close>
  throws a TypeError to its caller, and \<open>exec\<close> with the command \<open>crash\<close>, which throws
  \<open>boom\<close>, throws \<open>boom\<close> to its caller; no promise is returned and the state is as before.
  The same two calls made while the load is under way return promise 5, and once the load
  has succeeded and the dispatch has run, that promise is rejected with the same values.
\<close>

theorem exec_ready_throws_to_caller:
  "ready loaded
   \<and> exec ''__proto__'' [] loaded = (Inl (Str ''TypeError''), loaded)
   \<and> exec ''crash'' [Num 7] loaded = (Inl (Str ''boom''), loaded)
   \<and> ready (announce loading) = False
   \<and> fst (exec ''__proto__'' [] (announce loading)) = Inr (PromiseRef 5)
   \<and> promises proto_deferred 5 = Rejected (Str ''TypeError'')
   \<and> fst (exec ''crash'' [Num 7] (announce loading)) = Inr (PromiseRef 5)
   \<and> promises crash_deferred 5 = Rejected (Str ''boom'')"
proof -
  have a: "exec ''__proto__'' [] loaded = (Inl (Str ''TypeError''), loaded)"
    using loaded_ready loaded_reads(1) loaded_reads(6) by (rule exec_ready_applies(3))
  have b: "exec ''crash'' [Num 7] loaded = (Inl (Str ''boom''), loaded)"
    using loaded_ready loaded_reads(1) loaded_reads(8) by (rule exec_ready_applies(2)) simp
  from loaded_ready a b deferred_calls deferred_runs(3,6) show ?thesis by blast
qed

section \<open>The handler of \<open>close\<close> and the load step\<close>

lemma not_meta_colon: "\<not> is_meta CHR '':''"
  by (simp add: is_meta_def)

lemma rx_atoms_name:
  "\<forall>c \<in> set name. \<not> is_meta c \<Longrightarrow> rx_atoms (name @ '':*'') = Some (map Lit name @ [Star CHR '':''])"
proof (induction name)
  case Nil
  show ?case by (simp add: not_meta_colon)
next
  case (Cons c cs)
  then have c: "\<not> is_meta c" and ih: "rx_atoms (cs @ '':*'') = Some (map Lit cs @ [Star CHR '':''])"
    by simp_all
  show ?case
  proof (cases cs)
    case Nil
    with c show ?thesis by (simp add: not_meta_colon)
  next
    case (Cons d ds)
    with Cons.prems have "\<not> is_meta d" by simp
    then have "d \<noteq> CHR ''*''" by (auto simp: is_meta_def)
    with c ih Cons show ?thesis by simp
  qed
qed

lemma rx_test_star: "rx_test [Star c] key"
  by (induction key) simp_all

lemma rx_test_name: "rx_test (map Lit name @ [Star c]) key \<longleftrightarrow> prefix name key"
proof (induction name arbitrary: key)
  case Nil
  show ?case by (simp add: rx_test_star)
next
  case (Cons a name)
  show ?case by (cases key) (auto simp: Cons.IH)
qed

text \<open>
  For a domain name without special characters, the pattern of the constructor matches
  exactly the keys that start with the name: the colon is optional.
\<close>

lemma domainPrefix_matches:
  assumes "\<forall>c \<in> set name. \<not> is_meta c"
  shows "\<exists>rx. RegExp engine (''^'' @ name @ '':*'') = Some rx
           \<and> (\<forall>key. pattern_test rx key \<longleftrightarrow> prefix name key)"
  using rx_atoms_name [OF assms] by (simp add: RegExp_def fragment_def rx_test_name)

lemma closeHandler_effect:
  "fst (closeHandler rx (PromiseRef p) w) = None
   \<and> listeners (snd (closeHandler rx (PromiseRef p) w)) key
         = (if pattern_test rx key then [] else listeners w key)
   \<and> domainLoaded (snd (closeHandler rx (PromiseRef p) w)) = False
   \<and> \<not> ready (snd (closeHandler rx (PromiseRef p) w))
   \<and> connectionPromise (snd (closeHandler rx (PromiseRef p) w)) = Some (nextPid w)
   \<and> promises (snd (closeHandler rx (PromiseRef p) w)) (nextPid w) = Pending
   \<and> (promises w p = Pending \<longrightarrow>
        reactions (snd (closeHandler rx (PromiseRef p) w)) =
          reactions w @ [\<lparr>source = p, onFulfilled = Some Load, onRejected = None, derived = nextPid w\<rparr>])
   \<and> (promises w p \<noteq> Pending \<longrightarrow>
        jobs (snd (closeHandler rx (PromiseRef p) w)) =
          jobs w @ [(\<lparr>source = p, onFulfilled = Some Load, onRejected = None, derived = nextPid w\<rparr>, promises w p)])"
  by (simp add: closeHandler_def off_def thenP_def newPromise_def Let_def ready_def)

text \<open>
  Called with anything but a promise, the handler has unsubscribed and marked the domain
  as not loaded when \<open>promise.then\<close> throws; \<open>_connectionPromise\<close> is not touched.
\<close>

lemma closeHandler_without_promise:
  assumes "\<forall>p. payload \<noteq> PromiseRef p"
  shows "closeHandler rx payload w = (Some (Str ''TypeError''), (off rx w)\<lparr>domainLoaded := False\<rparr>)"
  using assms by (cases payload) (simp_all add: closeHandler_def Let_def)

lemma crowded_fields:
  "listeners crowded ''domino:moved'' = [Foreign 0]"
  "listeners crowded ''dom:changed'' = [Relay ''changed'']"
  "ready crowded"
  by (simp_all add: crowded_def on_def ready_def loaded_fields)

text \<open>
  Claim C1 on the code. The proxy of the domain \<open>dom\<close> is ready and relays \<open>changed\<close>;
  another client listens to \<open>domino:moved\<close>, a key that does not start with \<open>dom:\<close>. When
  the connection closes, the handler marks the domain as not loaded, so that \<open>ready\<close> is
  false, and stores the promise of \<open>promise.then(this._load)\<close>, promise 6, whose reaction
  waits for promise 5; it removes the relay of \<open>dom:changed\<close>, and it removes the listener
  of \<open>domino:moved\<close> as well. In the same way the proxy of a domain named \<open>clo\<close> removes,
  at the first \<open>close\<close>, its own handler of \<open>close\<close>.
\<close>

theorem close_unsubscribes_longer_names:
  "\<not> prefix ''dom:'' ''domino:moved''
   \<and> getListeners ''domino:moved'' crowded = [Foreign 0]
   \<and> getListeners ''dom:changed'' crowded = [Relay ''changed'']
   \<and> ready crowded
   \<and> getListeners ''dom:changed'' reconnecting = []
   \<and> getListeners ''domino:moved'' reconnecting = []
   \<and> domainLoaded reconnecting = False
   \<and> ready reconnecting = False
   \<and> connectionPromise reconnecting = Some 6
   \<and> reactions reconnecting = [\<lparr>source = 5, onFulfilled = Some Load, onRejected = None, derived = 6\<rparr>]
   \<and> \<not> prefix ''clo:'' ''close''
   \<and> getListeners ''close'' constructed_clo
         = [CloseHandler (Atoms [Lit CHR ''c'', Lit CHR ''l'', Lit CHR ''o'', Star CHR '':''])]
   \<and> getListeners ''close'' reconnecting_clo = []"
proof -
  have l: "listeners (snd (newExternal Pending crowded)) ''close''
             = [CloseHandler (Atoms [Lit CHR ''d'', Lit CHR ''o'', Lit CHR ''m'', Star CHR '':''])]"
    by (simp add: newExternal_def newPromise_def crowded_def on_def loaded_fields)
  have n: "nextPid (snd (newExternal Pending crowded)) = 6"
    "promises (snd (newExternal Pending crowded)) 5 = Pending"
    "reactions (snd (newExternal Pending crowded)) = []"
    "listeners (snd (newExternal Pending crowded)) ''dom:changed'' = [Relay ''changed'']"
    "listeners (snd (newExternal Pending crowded)) ''domino:moved'' = [Foreign 0]"
    by (simp_all add: newExternal_def newPromise_def crowded_def on_def loaded_fields)
  have r: "reconnecting = snd (closeHandler (Atoms [Lit CHR ''d'', Lit CHR ''o'', Lit CHR ''m'', Star CHR '':''])
             (PromiseRef 5) (snd (newExternal Pending crowded)))"
    by (simp add: reconnecting_def emit_def getListeners_def l split_beta closeHandler_def Let_def)
  have clo: "getListeners ''close'' constructed_clo
         = [CloseHandler (Atoms [Lit CHR ''c'', Lit CHR ''l'', Lit CHR ''o'', Star CHR '':''])]"
    "getListeners ''close'' reconnecting_clo = []"
    by (simp_all add: constructed_clo_def reconnecting_clo_def emit_def closeHandler_def run_defs)
  show ?thesis
    using closeHandler_effect [of "Atoms [Lit CHR ''d'', Lit CHR ''o'', Lit CHR ''m'', Star CHR '':'']" 5
        "snd (newExternal Pending crowded)" "''dom:changed''"]
      closeHandler_effect [of "Atoms [Lit CHR ''d'', Lit CHR ''o'', Lit CHR ''m'', Star CHR '':'']" 5
        "snd (newExternal Pending crowded)" "''domino:moved''"]
    by (simp add: r n crowded_fields clo getListeners_def [of "''dom:changed''"]
        getListeners_def [of "''domino:moved''"])
qed

lemma loadSuccess_clears: "connectionPromise (snd (loadSuccess w)) = None \<and> domainLoaded (snd (loadSuccess w))"
  by (auto simp: loadSuccess_def refreshInterface_def Let_def split: option.splits sum.splits)

lemma loadFailure_keeps:
  "connectionPromise (snd (loadFailure err w)) = connectionPromise w
   \<and> domainLoaded (snd (loadFailure err w)) = domainLoaded w"
  by (simp add: loadFailure_def)

text \<open>
  Claim C2 on the code. The connection opens and the load fails with \<open>boom\<close>. The failure
  handler writes to the console and nothing else: once the queue has run dry, the proxy is
  not ready, no reaction and no job is left, and \<open>_connectionPromise\<close> still holds promise
  1, which is fulfilled, so that \<open>promise\<close> returns a fulfilled promise.
\<close>

theorem load_failure_keeps_connectionPromise:
  "promises load_failed 2 = Rejected (Str ''boom'')
   \<and> console load_failed = [(''[NodeDomain] Error loading domain '' @ [CHR 0x22] @ ''dom'' @ [CHR 0x22] @ '': '', Str ''boom'')]
   \<and> ready load_failed = False
   \<and> jobs load_failed = [] \<and> reactions load_failed = []
   \<and> connectionPromise load_failed = Some 1
   \<and> promises load_failed 1 = Fulfilled Undefined
   \<and> promise load_failed = (Inr 1, load_failed)"
  by (simp add: load_failed_fields ready_def promise_def)

section \<open>The deferred call\<close>

lemma awaiting_registered:
  assumes "wellFormed w" and "p < nextPid w" and "promises w p = Pending"
  shows "awaiting \<lparr>source = p, onFulfilled = f, onRejected = r, derived = nextPid w\<rparr> (snd (thenP p f r w))"
  using assms unfolding awaiting_def wellFormed_def
  by (auto simp: thenP_store less_SucI)

lemma deferred_call_eq:
  assumes "\<not> ready w" and "connectionPromise w = Some p"
  shows "exec name params w
           = (Inr (PromiseRef (nextPid w)), snd (thenP p (Some (ExecConnected name params)) None w))"
  using assms by (simp add: exec_def split_beta thenP_store)

lemma thenP_domains:
  "snd (thenP p f r (w\<lparr>domains := D\<rparr>)) = (snd (thenP p f r w))\<lparr>domains := D\<rparr>"
  by (simp add: thenP_def newPromise_def Let_def)

lemma runJob_dispatch:
  "runJob (\<lparr>source = p, onFulfilled = Some (ExecConnected name params), onRejected = r, derived = q\<rparr>,
           Fulfilled v) w =
     (case execConnected name params w of
        (Inl e, w') \<Rightarrow> settle q (Rejected e) w'
      | (Inr (PromiseRef x), w') \<Rightarrow> follow x q w'
      | (Inr x, w') \<Rightarrow> settle q (Fulfilled x) w')"
  by (simp add: runJob_def resolveWith_def split: prod.splits sum.splits val.splits)

lemma dispatch_reaches_command:
  assumes "domains w (domainName w) = Some d" and "own d name = Some f"
    and "f params = Returns (Fulfilled res)"
    and "promises w q = Pending" and "q < nextPid w" and "jobs w = []"
  shows "promises (runNextJob (runJob (\<lparr>source = p, onFulfilled = Some (ExecConnected name params),
            onRejected = r, derived = q\<rparr>, Fulfilled v) w)) q = Fulfilled res"
  using assms
  by (simp add: execConnected_def getProperty_def newExternal_def newPromise_def follow_def
      resolveWith_def runNextJob_def runJob_def settle_def)

text \<open>
  Claim C3. In a sound state, as every state of a run is, let the proxy be not ready while
  \<open>_connectionPromise\<close> holds the promise \<open>p\<close>. Then \<open>exec\<close> returns a new promise, which is
  pending, and it does not read the command table: with any other table the call does the same. If \<open>p\<close> was settled
  already, the dispatch is queued as a job. If \<open>p\<close> is pending, then along every run, as
  long as \<open>p\<close> is pending the returned promise is pending too, and in the state in which
  \<open>p\<close> has just been settled it is still pending and the dispatch is queued with that
  settlement. When the dispatch runs on a fulfilment, the command is looked up in the state
  of that moment, by \<open>execConnected\<close>; so a command that is in the table by then, whatever
  the table was at the call, is applied, and its result becomes the state of the returned
  promise.
\<close>

theorem exec_deferred:
  assumes "sound w" and "\<not> ready w" and "connectionPromise w = Some p"
  shows "\<exists>w1. exec name params w = (Inr (PromiseRef (nextPid w)), w1)
          \<and> exec name params (w\<lparr>domains := D\<rparr>) = (Inr (PromiseRef (nextPid w)), w1\<lparr>domains := D\<rparr>)
          \<and> promises w1 (nextPid w) = Pending
          \<and> (promises w p \<noteq> Pending \<longrightarrow>
               (\<lparr>source = p, onFulfilled = Some (ExecConnected name params), onRejected = None,
                  derived = nextPid w\<rparr>, promises w p) \<in> set (jobs w1))
          \<and> (promises w p = Pending \<longrightarrow>
               (\<forall>w2. step\<^sup>*\<^sup>* w1 w2 \<and> promises w2 p = Pending \<longrightarrow>
                  promises w2 (nextPid w) = Pending
                  \<and> (\<forall>w3. step w2 w3 \<and> promises w3 p \<noteq> Pending \<longrightarrow>
                        promises w3 (nextPid w) = Pending
                        \<and> (\<lparr>source = p, onFulfilled = Some (ExecConnected name params), onRejected = None,
                              derived = nextPid w\<rparr>, promises w3 p) \<in> set (jobs w3))))
          \<and> (\<forall>w4 v. runJob (\<lparr>source = p, onFulfilled = Some (ExecConnected name params), onRejected = None,
                                 derived = nextPid w\<rparr>, Fulfilled v) w4 =
                 (case execConnected name params w4 of
                    (Inl e, w') \<Rightarrow> settle (nextPid w) (Rejected e) w'
                  | (Inr (PromiseRef x), w') \<Rightarrow> follow x (nextPid w) w'
                  | (Inr x, w') \<Rightarrow> settle (nextPid w) (Fulfilled x) w'))
          \<and> (\<forall>w4 v d f res.
                 domains w4 (domainName w4) = Some d \<and> own d name = Some f \<and> f params = Returns (Fulfilled res)
                 \<and> promises w4 (nextPid w) = Pending \<and> nextPid w < nextPid w4 \<and> jobs w4 = [] \<longrightarrow>
                 promises (runNextJob (runJob (\<lparr>source = p, onFulfilled = Some (ExecConnected name params),
                     onRejected = None, derived = nextPid w\<rparr>, Fulfilled v) w4)) (nextPid w) = Fulfilled res)"
proof -
  let ?rc = "\<lparr>source = p, onFulfilled = Some (ExecConnected name params), onRejected = None,
               derived = nextPid w\<rparr>"
  let ?w1 = "snd (thenP p (Some (ExecConnected name params)) None w)"
  have wf: "wellFormed w" and pl: "p < nextPid w"
    using assms(1,3) by (simp_all add: sound_def)
  have e1: "exec name params w = (Inr (PromiseRef (nextPid w)), ?w1)"
    using assms(2,3) by (rule deferred_call_eq)
  have "\<not> ready (w\<lparr>domains := D\<rparr>)" "connectionPromise (w\<lparr>domains := D\<rparr>) = Some p"
    using assms(2,3) by (simp_all add: ready_def)
  then have "exec name params (w\<lparr>domains := D\<rparr>)
      = (Inr (PromiseRef (nextPid (w\<lparr>domains := D\<rparr>))), snd (thenP p (Some (ExecConnected name params)) None (w\<lparr>domains := D\<rparr>)))"
    by (rule deferred_call_eq)
  then have e2: "exec name params (w\<lparr>domains := D\<rparr>) = (Inr (PromiseRef (nextPid w)), ?w1\<lparr>domains := D\<rparr>)"
    by (simp add: thenP_domains)
  have e3: "promises ?w1 (nextPid w) = Pending"
    by (simp add: thenP_store)
  have e4: "promises w p \<noteq> Pending \<longrightarrow> (?rc, promises w p) \<in> set (jobs ?w1)"
    by (simp add: thenP_store)
  have e5: "promises w p = Pending \<longrightarrow>
               (\<forall>w2. step\<^sup>*\<^sup>* ?w1 w2 \<and> promises w2 p = Pending \<longrightarrow>
                  promises w2 (nextPid w) = Pending
                  \<and> (\<forall>w3. step w2 w3 \<and> promises w3 p \<noteq> Pending \<longrightarrow>
                        promises w3 (nextPid w) = Pending \<and> (?rc, promises w3 p) \<in> set (jobs w3)))"
  proof (intro impI allI, elim conjE)
    fix w2
    assume pend: "promises w p = Pending" and run: "step\<^sup>*\<^sup>* ?w1 w2" and p2: "promises w2 p = Pending"
    have "awaiting ?rc ?w1"
      using wf pl pend by (rule awaiting_registered)
    with run have a2: "awaiting ?rc w2"
      using p2 by (auto intro: awaiting_steps)
    then have q2: "promises w2 (nextPid w) = Pending"
      by (simp add: awaiting_def)
    have "promises w3 (nextPid w) = Pending \<and> (?rc, promises w3 p) \<in> set (jobs w3)"
      if "step w2 w3" and "promises w3 p \<noteq> Pending" for w3
      using kept_step [OF that(1) a2] that(2) by (simp add: kept_def)
    with q2 show "promises w2 (nextPid w) = Pending
                  \<and> (\<forall>w3. step w2 w3 \<and> promises w3 p \<noteq> Pending \<longrightarrow>
                        promises w3 (nextPid w) = Pending \<and> (?rc, promises w3 p) \<in> set (jobs w3))"
      by blast
  qed
  have e6: "\<forall>w4 v. runJob (?rc, Fulfilled v) w4 =
                 (case execConnected name params w4 of
                    (Inl e, w') \<Rightarrow> settle (nextPid w) (Rejected e) w'
                  | (Inr (PromiseRef x), w') \<Rightarrow> follow x (nextPid w) w'
                  | (Inr x, w') \<Rightarrow> settle (nextPid w) (Fulfilled x) w')"
    by (simp add: runJob_dispatch)
  have e7: "\<forall>w4 v d f res.
                 domains w4 (domainName w4) = Some d \<and> own d name = Some f \<and> f params = Returns (Fulfilled res)
                 \<and> promises w4 (nextPid w) = Pending \<and> nextPid w < nextPid w4 \<and> jobs w4 = [] \<longrightarrow>
                 promises (runNextJob (runJob (?rc, Fulfilled v) w4)) (nextPid w) = Fulfilled res"
    using dispatch_reaches_command by blast
  from e1 e2 e3 e4 e5 e6 e7 show ?thesis by blast
qed

lemma pinged_eq:
  "pinged = constructed\<lparr>promises := (promises constructed)(2 := Pending), nextPid := 3,
      reactions := reactions constructed @
        [\<lparr>source = 1, onFulfilled = Some (ExecConnected ''ping'' [Num 1, Num 2]), onRejected = None,
           derived = 2\<rparr>]\<rparr>"
  by (simp add: pinged_def exec_def ready_def thenP_def newPromise_def constructed_eq)

lemmas pinged_defs = pinged_open_def pinged_loading_def pinged_announced_def pinged_loaded_def
  pinged_passing_def pinged_ready_def pinged_dispatched_def pinged_done_def

lemma pinged_run:
  "0 \<in> external (pinged\<lparr>connected := True, domains := Map.empty, domainEvents := Map.empty\<rparr>)"
  "jobs pinged_open \<noteq> []"
  "3 \<in> external pinged_announced"
  "jobs (settle 3 (Fulfilled Undefined) pinged_announced) \<noteq> []"
  "jobs pinged_loaded \<noteq> []"
  "jobs pinged_passing \<noteq> []"
  "promises pinged_passing (Suc 0) = Pending"
  "promises pinged_ready (Suc 0) = Fulfilled Undefined"
  "ready pinged_ready"
  "getListeners ''dom:changed'' pinged_ready = [Relay ''changed'']"
  "promises pinged_done 2 = Fulfilled (Str ''pong'')"
  "jobs pinged_done = []"
  by (simp_all add: pinged_defs pinged_eq constructed_eq run_defs remote_commands_def ready_def
      plainObject_def inherited_members_def)

lemma pinged_steps: "step\<^sup>*\<^sup>* pinged pinged_passing"
proof -
  let ?a = "pinged\<lparr>connected := True, domains := Map.empty, domainEvents := Map.empty\<rparr>"
  let ?b = "settle 3 (Fulfilled Undefined) pinged_announced"
  have "step pinged ?a"
    by (rule step.transport)
  moreover have "step ?a pinged_open"
    unfolding pinged_open_def using pinged_run(1) by (rule step.settled)
  moreover have "step pinged_open pinged_loading"
    unfolding pinged_loading_def using pinged_run(2) by (rule step_runNextJob)
  moreover have "step pinged_loading pinged_announced"
    unfolding pinged_announced_def by (rule step.transport)
  moreover have "step pinged_announced ?b"
    using pinged_run(3) by (rule step.settled)
  moreover have "step ?b pinged_loaded"
    unfolding pinged_loaded_def using pinged_run(4) by (rule step_runNextJob)
  moreover have "step pinged_loaded pinged_passing"
    unfolding pinged_passing_def using pinged_run(5) by (rule step_runNextJob)
  ultimately show ?thesis
    by (meson rtranclp.rtrancl_into_rtrancl rtranclp.rtrancl_refl)
qed

theorem exec_deferred_witness:
  "sound constructed \<and> ready constructed = False \<and> connectionPromise constructed = Some 1
   \<and> promises constructed 1 = Pending \<and> domains constructed ''dom'' = None
   \<and> exec ''ping'' [Num 1, Num 2] constructed = (Inr (PromiseRef 2), pinged)
   \<and> step\<^sup>*\<^sup>* pinged pinged_passing
   \<and> promises pinged_passing 1 = Pending \<and> promises pinged_passing 2 = Pending
   \<and> step pinged_passing pinged_ready
   \<and> promises pinged_ready 1 = Fulfilled Undefined \<and> promises pinged_ready 2 = Pending
   \<and> (\<lparr>source = 1, onFulfilled = Some (ExecConnected ''ping'' [Num 1, Num 2]), onRejected = None,
          derived = 2\<rparr>, Fulfilled Undefined) \<in> set (jobs pinged_ready)
   \<and> ready pinged_ready
   \<and> promises pinged_done 2 = Fulfilled (Str ''pong'')"
proof -
  have c: "sound constructed" "\<not> ready constructed" "connectionPromise constructed = Some 1"
    "promises constructed 1 = Pending" "domains constructed ''dom'' = None"
    "nextPid constructed = 2"
    by (simp_all add: constructed_eq sound_def wellFormed_def ready_def)
  have s: "step pinged_passing pinged_ready"
    unfolding pinged_ready_def using pinged_run(6) by (rule step_runNextJob)
  from exec_deferred [OF c(1-3), of "''ping''" "[Num 1, Num 2]" Map.empty]
  obtain w1 where w1: "exec ''ping'' [Num 1, Num 2] constructed = (Inr (PromiseRef (nextPid constructed)), w1)"
    and run: "\<forall>w2. step\<^sup>*\<^sup>* w1 w2 \<and> promises w2 1 = Pending \<longrightarrow>
                  promises w2 (nextPid constructed) = Pending
                  \<and> (\<forall>w3. step w2 w3 \<and> promises w3 1 \<noteq> Pending \<longrightarrow>
                        promises w3 (nextPid constructed) = Pending
                        \<and> (\<lparr>source = 1, onFulfilled = Some (ExecConnected ''ping'' [Num 1, Num 2]), onRejected = None,
                              derived = nextPid constructed\<rparr>, promises w3 1) \<in> set (jobs w3))"
    using c(4) by blast
  from w1 have w1p: "w1 = pinged"
    by (simp add: pinged_def)
  from run [rule_format, of pinged_passing] pinged_steps pinged_run(7)
  have q: "promises pinged_passing 2 = Pending"
    and f: "\<forall>w3. step pinged_passing w3 \<and> promises w3 1 \<noteq> Pending \<longrightarrow>
              promises w3 2 = Pending
              \<and> (\<lparr>source = 1, onFulfilled = Some (ExecConnected ''ping'' [Num 1, Num 2]), onRejected = None,
                    derived = 2\<rparr>, promises w3 1) \<in> set (jobs w3)"
    by (simp_all add: w1p c(6))
  from f [rule_format, of pinged_ready] s pinged_run(8)
  have g: "promises pinged_ready 2 = Pending"
    "(\<lparr>source = 1, onFulfilled = Some (ExecConnected ''ping'' [Num 1, Num 2]), onRejected = None,
        derived = 2\<rparr>, Fulfilled Undefined) \<in> set (jobs pinged_ready)"
    by simp_all
  have e: "exec ''ping'' [Num 1, Num 2] constructed = (Inr (PromiseRef 2), pinged)"
    using w1 by (simp add: w1p c(6))
  from c e pinged_steps pinged_run(7,8,9,11) q s g show ?thesis
    by simp
qed

section \<open>Properties of the preference key\<close>

lemma unat_digit: "d < 10 \<Longrightarrow> unat (digit d) = 0x30 + d"
  unfolding digit_def by (simp add: unat_of_nat del: of_nat_add)

lemma isAlnum_digit: "d < 10 \<Longrightarrow> isAlnum (digit d)"
  unfolding isAlnum_def by (simp add: word_le_nat_alt unat_digit)

lemma isAlnum_decimal: "c \<in> set (decimal n) \<Longrightarrow> isAlnum c"
proof (induction n rule: decimal.induct)
  case (1 n)
  show ?case
  proof (cases "n < 10")
    case True
    with "1.prems" show ?thesis by (simp add: decimal.simps [of n] isAlnum_digit)
  next
    case False
    with "1.prems" have "c \<in> set (decimal (n div 10)) \<or> c = digit (n mod 10)"
      by (auto simp: decimal.simps [of n])
    with False "1.IH" show ?thesis by (auto simp: isAlnum_digit)
  qed
qed

lemma digit_range_decimal: "d \<in> set (decimal n) \<Longrightarrow> 0x30 \<le> d \<and> d \<le> 0x39"
proof (induction n rule: decimal.induct)
  case (1 n)
  have dg: "\<And>k. k < 10 \<Longrightarrow> 0x30 \<le> digit k \<and> digit k \<le> 0x39"
    by (simp add: word_le_nat_alt unat_digit)
  show ?case
  proof (cases "n < 10")
    case True
    with "1.prems" dg [of n] show ?thesis by (simp add: decimal.simps [of n])
  next
    case False
    with "1.prems" have "d \<in> set (decimal (n div 10)) \<or> d = digit (n mod 10)"
      by (auto simp: decimal.simps [of n])
    with False "1.IH" dg [of "n mod 10"] show ?thesis by auto
  qed
qed

lemma read_decimal_snoc: "read_decimal (ds @ [d]) = 10 * read_decimal ds + (unat d - 0x30)"
  by (simp add: read_decimal_def)

lemma read_decimal_decimal: "read_decimal (decimal n) = n"
proof (induction n rule: decimal.induct)
  case (1 n)
  show ?case
  proof (cases "n < 10")
    case True
    then show ?thesis by (simp add: decimal.simps [of n] read_decimal_def unat_digit)
  next
    case False
    with "1.IH" show ?thesis
      by (simp add: decimal.simps [of n] read_decimal_snoc unat_digit)
  qed
qed

lemma replace_nonalnum_concat:
  "replace_nonalnum s = concat (map (\<lambda>c. if isAlnum c then [c] else replacer c) s)"
  by (induction s) simp_all

lemma replace_nonalnum_chars: "c \<in> set (replace_nonalnum s) \<Longrightarrow> isAlnum c \<or> c = underscore"
  by (induction s) (auto simp: replacer_def isAlnum_decimal split: if_splits)

text \<open>
  Claim C10. \<open>domainPrefKey\<close> passes every code unit of \<open>[a-zA-Z0-9]\<close> through, replaces
  every other code unit by an underscore, its code in decimal and an underscore, so that the
  result holds only letters, digits and underscores; the decimal numeral consists of digits
  and reads back as the code; the empty string is returned as it is.
\<close>

theorem domainPrefKey_spec:
  "domainPrefKey s = concat (map (\<lambda>c. if isAlnum c then [c] else [underscore] @ decimal (unat c) @ [underscore]) s)
   \<and> (\<forall>c \<in> set (domainPrefKey s). isAlnum c \<or> c = underscore)
   \<and> (\<forall>n. read_decimal (decimal n) = n \<and> (\<forall>d \<in> set (decimal n). 0x30 \<le> d \<and> d \<le> 0x39))
   \<and> domainPrefKey [] = []"
proof -
  have eq: "domainPrefKey s = replace_nonalnum s"
    by (simp add: domainPrefKey_def)
  have c1: "domainPrefKey s = concat (map (\<lambda>c. if isAlnum c then [c] else [underscore] @ decimal (unat c) @ [underscore]) s)"
    unfolding eq replace_nonalnum_concat replacer_def ..
  have c2: "\<forall>c \<in> set (domainPrefKey s). isAlnum c \<or> c = underscore"
    unfolding eq using replace_nonalnum_chars by blast
  have c3: "\<forall>n. read_decimal (decimal n) = n \<and> (\<forall>d \<in> set (decimal n). 0x30 \<le> d \<and> d \<le> 0x39)"
    using read_decimal_decimal digit_range_decimal by blast
  have c4: "domainPrefKey [] = []"
    by (simp add: domainPrefKey_def)
  from c1 c2 c3 c4 show ?thesis by blast
qed

theorem domainPrefKey_spec_witness:
  "domainPrefKey [0x6D, 0x79, 0x2D, 0x70, 0x2E, 0x76, 0x32, 0x263A]
     = [0x6D, 0x79, 0x5F, 0x34, 0x35, 0x5F, 0x70, 0x5F, 0x34, 0x36, 0x5F, 0x76, 0x32, 0x5F, 0x39, 0x37, 0x38, 0x36, 0x5F]
   \<and> list_all (\<lambda>c. isAlnum c \<or> c = underscore) (domainPrefKey [0x6D, 0x79, 0x2D, 0x70, 0x2E, 0x76, 0x32, 0x263A])"
proof -
  have d1: "decimal 45 = [0x34, 0x35]" and d2: "decimal 46 = [0x34, 0x36]"
    and d3: "decimal 9786 = [0x39, 0x37, 0x38, 0x36]"
    by (simp_all add: decimal.simps digit_def)
  have al: "isAlnum 0x6D" "isAlnum 0x79" "\<not> isAlnum 0x2D" "isAlnum 0x70" "\<not> isAlnum 0x2E"
    "isAlnum 0x76" "isAlnum 0x32" "\<not> isAlnum 0x263A"
    by (simp_all add: isAlnum_def)
  from domainPrefKey_spec [of "[0x6D, 0x79, 0x2D, 0x70, 0x2E, 0x76, 0x32, 0x263A]"]
  show ?thesis
    by (simp add: al d1 d2 d3 underscore_def list_all_iff)
qed

end
